theory Spec2Isabelle
  imports Complex_Main
begin

section \<open>Errors\<close>

text \<open>
  Every failure of the source is a value. The first nine constructors are the
  \<open>PapyrusDataException\<close> messages of \<open>utils.py\<close>, \<open>image.py\<close> and \<open>volume.py\<close>
  (one constructor per message); the others are the built-in Python exceptions
  the modelled code can raise.
\<close>

datatype error =
    StepSlices              \<comment> \<open>"Cannot use step slices on downsampled data"\<close>
  | MustIndexWithSlices     \<comment> \<open>"Must index with slices"\<close>
  | TooManyIndices          \<comment> \<open>"Too many indices for array"\<close>
  | NonIntegerLevel         \<comment> \<open>"The last index must be an integer ..."\<close>
  | NegativeLevel           \<comment> \<open>"Cannot index negative sampled images"\<close>
  | OnlyLevels int          \<comment> \<open>"Only n downsampled images in this library", with n the handle's scale levels\<close>
  | MissingImageFile int    \<comment> \<open>"Missing image file z from ...", with z the index\<close>
  | AlreadyExists           \<comment> \<open>"Provided zarr path ... already exists."\<close>
  | DoesNotExist            \<comment> \<open>"Provided zarr path ... does not exist."\<close>
  | AttributeError
  | KeyError
  | TypeError
  | ValueError
  | OverflowError
  | ZeroDivisionError
  | UnboundLocalError

section \<open>Selectors and the slice utilities of \<open>utils.py\<close>\<close>

text \<open>
  One element of an indexing key: a Python \<open>int\<close>, a \<open>slice(start, stop, step)\<close>
  whose three fields are each \<open>None\<close> or an integer, or any other object.
\<close>

datatype selector =
    IntSel int
  | SliceSel "int option" "int option" "int option"
  | OtherSel

fun is_int :: "selector \<Rightarrow> bool" where
  "is_int (IntSel _) = True"
| "is_int _ = False"

text \<open>
  \<open>downsample_slice(item, scale)\<close>. Python's \<open>//\<close> on integers is floor division,
  which is \<open>div\<close> on \<open>int\<close>. Both \<open>__getitem__\<close> methods call it only after
  the check \<open>scale < 0\<close> has passed, and the definition is the function on
  those scales, \<open>scale \<ge> 0\<close>, with the exponent \<open>nat scale\<close>; for a negative
  scale Python's \<open>2 ** scale\<close> is a float, which no caller reaches and the
  selectors here do not hold.
\<close>

fun downsample_slice :: "selector \<Rightarrow> int \<Rightarrow> error + selector" where
  "downsample_slice item scale =
     (if scale = 0 then Inr item
      else (case item of
              IntSel i \<Rightarrow> Inr (IntSel (i div 2 ^ nat scale))
            | OtherSel \<Rightarrow> Inl MustIndexWithSlices
            | SliceSel start stop step \<Rightarrow>
                (if step \<noteq> None then Inl StepSlices
                 else Inr (SliceSel
                        (case start of None \<Rightarrow> None | Some a \<Rightarrow> Some (a div 2 ^ nat scale))
                        (case stop of None \<Rightarrow> None | Some b \<Rightarrow> Some (b div 2 ^ nat scale))
                        None))))"

text \<open>
  \<open>get_slice_size(item, dimsize)\<close>. The function reads \<open>item.step\<close> first; an
  object without that attribute (an \<open>int\<close>, or anything that is not a slice)
  raises \<open>AttributeError\<close>.
\<close>

fun get_slice_size :: "selector \<Rightarrow> int \<Rightarrow> error + int" where
  "get_slice_size (SliceSel start stop step) dimsize =
     (if step \<noteq> None then Inl StepSlices
      else Inr ((case stop of None \<Rightarrow> dimsize | Some b \<Rightarrow> b)
                - (case start of None \<Rightarrow> 0 | Some a \<Rightarrow> a)))"
| "get_slice_size _ dimsize = Inl AttributeError"

section \<open>The handle and the level-of-detail resolver\<close>

definition CHUNK_SIZE :: int where
  "CHUNK_SIZE = 1024"

text \<open>
  The fields \<open>__init__\<close> sets on a \<open>PapyrusImage\<close> (shape a pair) or a
  \<open>PapyrusVolume\<close> (shape a triple).
\<close>

record 'shp handle =
  multiscale :: bool
  shape :: 'shp
  scale_levels :: int

text \<open>The array a read goes to: \<open>"image"\<close>/\<open>"volume"\<close>, or the one suffixed by the scale.\<close>

datatype array_name = Base | Downsampled int

text \<open>What \<open>__getitem__\<close> returns: the read issued against the store.\<close>

datatype read = Read array_name "selector list"

text \<open>
  The \<open>while\<close> loop of \<open>__getitem__\<close>, from the state \<open>(scale, scale_size)\<close>:
  \<open>while (scale < self.scale_levels) and scale_size > (CHUNK_SIZE // 4)\<close>.
\<close>

function select_scale :: "int \<Rightarrow> int \<Rightarrow> int \<Rightarrow> int" where
  "select_scale levels scale scale_size =
     (if scale < levels \<and> scale_size > CHUNK_SIZE div 4
      then select_scale levels (scale + 1) (scale_size div 2)
      else scale)"
  by pat_completeness auto
termination
  by (relation "measure (\<lambda>(levels, scale, scale_size). nat (levels - scale))") auto

declare select_scale.simps [simp del]

text \<open>
  The loop as the spec words it, for comparison: the threshold is a quarter
  of the chunk size of the store, \<open>size > chunk_size / 4\<close>, that is
  \<open>4 * size > chunk_size\<close>.
\<close>

function spec_select_scale :: "int \<Rightarrow> int \<Rightarrow> int \<Rightarrow> int \<Rightarrow> int" where
  "spec_select_scale chunk levels scale scale_size =
     (if scale < levels \<and> 4 * scale_size > chunk
      then spec_select_scale chunk levels (scale + 1) (scale_size div 2)
      else scale)"
  by pat_completeness auto
termination
  by (relation "measure (\<lambda>(chunk, levels, scale, scale_size). nat (levels - scale))") auto

declare spec_select_scale.simps [simp del]

text \<open>
  The common tail of \<open>__getitem__\<close> (the three checks on the scale, the name of
  the array and the rebasing of the selectors), over the list of the
  positional selectors.
\<close>

fun downsample_all :: "selector list \<Rightarrow> int \<Rightarrow> error + selector list" where
  "downsample_all [] scale = Inr []"
| "downsample_all (x # xs) scale =
     (case downsample_slice x scale of
        Inl e \<Rightarrow> Inl e
      | Inr x' \<Rightarrow> (case downsample_all xs scale of
                    Inl e \<Rightarrow> Inl e
                  | Inr xs' \<Rightarrow> Inr (x' # xs')))"

definition read_scaled :: "int \<Rightarrow> selector list \<Rightarrow> selector \<Rightarrow> error + read" where
  "read_scaled levels sels scale =
     (case scale of
        IntSel s \<Rightarrow>
          (if s < 0 then Inl NegativeLevel
           else if s > levels then Inl (OnlyLevels levels)
           else (case downsample_all sels s of
                   Inl e \<Rightarrow> Inl e
                 | Inr sels' \<Rightarrow> Inr (Read (if s = 0 then Base else Downsampled s) sels')))
      | _ \<Rightarrow> Inl NonIntegerLevel)"

text \<open>\<open>PapyrusImage.__getitem__\<close>; the key is a tuple of selectors.\<close>

definition image_getitem :: "(int \<times> int) handle \<Rightarrow> selector list \<Rightarrow> error + read" where
  "image_getitem h key =
     (case key of
        [x, y] \<Rightarrow>
          (if is_int x \<or> is_int y then Inr (Read Base key)
           else (case get_slice_size x (fst (shape h)) of
                   Inl e \<Rightarrow> Inl e
                 | Inr sx \<Rightarrow>
                     (case get_slice_size y (snd (shape h)) of
                        Inl e \<Rightarrow> Inl e
                      | Inr sy \<Rightarrow>
                          read_scaled (scale_levels h) [x, y]
                            (IntSel (select_scale (scale_levels h) 0 (max sx sy))))))
      | [x, y, scale] \<Rightarrow> read_scaled (scale_levels h) [x, y] scale
      | _ \<Rightarrow> Inl TooManyIndices)"

text \<open>\<open>PapyrusVolume.__getitem__\<close>.\<close>

definition volume_getitem :: "(int \<times> int \<times> int) handle \<Rightarrow> selector list \<Rightarrow> error + read" where
  "volume_getitem h key =
     (case key of
        [x, y, z] \<Rightarrow>
          (if is_int x \<or> is_int y \<or> is_int z then Inr (Read Base key)
           else (case get_slice_size x (fst (shape h)) of
                   Inl e \<Rightarrow> Inl e
                 | Inr sx \<Rightarrow>
                     (case get_slice_size y (fst (snd (shape h))) of
                        Inl e \<Rightarrow> Inl e
                      | Inr sy \<Rightarrow>
                          (case get_slice_size z (snd (snd (shape h))) of
                             Inl e \<Rightarrow> Inl e
                           | Inr sz \<Rightarrow>
                               read_scaled (scale_levels h) [x, y, z]
                                 (IntSel (select_scale (scale_levels h) 0
                                            (max sx (max sy sz))))))))
      | [x, y, z, scale] \<Rightarrow> read_scaled (scale_levels h) [x, y, z] scale
      | _ \<Rightarrow> Inl TooManyIndices)"

section \<open>Arrays and the datatype narrowing of \<open>utils.py\<close>\<close>

text \<open>
  The numpy dtypes that integer and boolean image data can have or be given.
  Floating-point sample data is outside the model; \<open>Float64\<close> occurs only as a
  result (of the common-type search, and as the default dtype of the store).
\<close>

datatype np_dtype =
  Bool8 | Int8 | UInt8 | Int16 | UInt16 | Int32 | UInt32 | Int64 | UInt64 | Float64

text \<open>
  A two-dimensional array: its dtype, its shape and its elements in row-major
  order (\<open>length elems = nrows * ncols\<close>).
\<close>

record ndarray =
  dtype :: np_dtype
  nrows :: nat
  ncols :: nat
  elems :: "int list"

text \<open>
  \<open>np.min_scalar_type\<close> of an element of an array of dtype \<open>d\<close>: a boolean
  stays boolean; an integer gets the smallest unsigned type that holds it, or
  the smallest signed type when it is negative. The elements of a fixed-width
  array lie within 64 bits, so the widest types close both chains.
\<close>

fun min_scalar_type :: "np_dtype \<Rightarrow> int \<Rightarrow> np_dtype" where
  "min_scalar_type d v =
     (if d = Bool8 then Bool8
      else if 0 \<le> v then
        (if v \<le> 255 then UInt8 else if v \<le> 65535 then UInt16
         else if v \<le> 4294967295 then UInt32 else UInt64)
      else
        (if - 128 \<le> v then Int8 else if - 32768 \<le> v then Int16
         else if - 2147483648 \<le> v then Int32 else Int64))"

text \<open>\<open>np.can_cast(a, t)\<close> under the default (safe) casting rule.\<close>

fun can_cast :: "np_dtype \<Rightarrow> np_dtype \<Rightarrow> bool" where
  "can_cast Bool8 t = True"
| "can_cast Int8 t = (t \<in> {Int8, Int16, Int32, Int64, Float64})"
| "can_cast UInt8 t = (t \<in> {UInt8, Int16, UInt16, Int32, UInt32, Int64, UInt64, Float64})"
| "can_cast Int16 t = (t \<in> {Int16, Int32, Int64, Float64})"
| "can_cast UInt16 t = (t \<in> {UInt16, Int32, UInt32, Int64, UInt64, Float64})"
| "can_cast Int32 t = (t \<in> {Int32, Int64, Float64})"
| "can_cast UInt32 t = (t \<in> {UInt32, Int64, UInt64, Float64})"
| "can_cast Int64 t = (t \<in> {Int64, Float64})"
| "can_cast UInt64 t = (t \<in> {UInt64, Float64})"
| "can_cast Float64 t = (t = Float64)"

text \<open>
  \<open>np.find_common_type([a, b], [])\<close>: the first type, in numpy's fixed order of
  test types, that both can be cast to.
\<close>

definition test_types :: "np_dtype list" where
  "test_types = [Bool8, Int8, UInt8, Int16, UInt16, Int32, UInt32, Int64, UInt64, Float64]"

definition find_common_type :: "np_dtype \<Rightarrow> np_dtype \<Rightarrow> np_dtype" where
  "find_common_type a b =
     (case List.find (\<lambda>t. can_cast a t \<and> can_cast b t) test_types of
        Some t \<Rightarrow> t
      | None \<Rightarrow> Float64)"

text \<open>
  \<open>get_min_datatype(array)\<close>. \<open>array.min()\<close> of an array without elements raises
  \<open>ValueError\<close>.
\<close>

definition get_min_datatype :: "ndarray \<Rightarrow> error + np_dtype" where
  "get_min_datatype array =
     (case elems array of
        [] \<Rightarrow> Inl ValueError
      | v # vs \<Rightarrow>
          (let lo = fold min vs v;
               hi = fold max vs v;
               dt = find_common_type (min_scalar_type (dtype array) lo)
                                     (min_scalar_type (dtype array) hi)
           in if dt = UInt8 \<and> (hi = 0 \<or> hi = 1) then Inr Bool8 else Inr dt))"

text \<open>The width of a dtype in bits.\<close>

fun bits :: "np_dtype \<Rightarrow> nat" where
  "bits Bool8 = 8"
| "bits Int8 = 8"
| "bits UInt8 = 8"
| "bits Int16 = 16"
| "bits UInt16 = 16"
| "bits Int32 = 32"
| "bits UInt32 = 32"
| "bits Int64 = 64"
| "bits UInt64 = 64"
| "bits Float64 = 64"

text \<open>
  The conversion of an integer to \<open>float64\<close>: an integer of at most 53 bits is
  kept; a longer one is rounded to 53 significant bits, to the nearest and to
  the even one of two nearest.
\<close>

function bit_length :: "int \<Rightarrow> nat" where
  "bit_length n = (if n \<le> 0 then 0 else Suc (bit_length (n div 2)))"
  by pat_completeness auto
termination
  by (relation "measure nat") auto

declare bit_length.simps [simp del]

definition to_float64 :: "int \<Rightarrow> int" where
  "to_float64 v =
     (let a = \<bar>v\<bar>; n = bit_length a
      in if n \<le> 53 then v
         else (let q = 2 ^ (n - 53); m = a div q; r = a mod q;
                   m' = (if 2 * r > q \<or> (2 * r = q \<and> odd m) then m + 1 else m)
               in sgn v * (m' * q)))"

text \<open>
  The conversion of one integer element by \<open>astype\<close>: to a boolean, whether it
  is not zero; to an integer dtype, its value modulo the width (two's
  complement for the signed ones); to \<open>float64\<close>, its rounding.
\<close>

fun cast_value :: "np_dtype \<Rightarrow> int \<Rightarrow> int" where
  "cast_value Bool8 v = (if v = 0 then 0 else 1)"
| "cast_value Float64 v = to_float64 v"
| "cast_value dt v =
     (if dt \<in> {UInt8, UInt16, UInt32, UInt64} then v mod 2 ^ bits dt
      else (v + 2 ^ (bits dt - 1)) mod 2 ^ bits dt - 2 ^ (bits dt - 1))"

text \<open>\<open>array.astype(dt)\<close>.\<close>

definition astype :: "ndarray \<Rightarrow> np_dtype \<Rightarrow> ndarray" where
  "astype array dt = array\<lparr>dtype := dt, elems := map (cast_value dt) (elems array)\<rparr>"

text \<open>
  An optional pair of limits (\<open>xlims\<close>, \<open>ylims\<close>, \<open>zlims\<close>) and the slice
  \<open>slice(min, max, None)\<close> or \<open>slice(None, None, None)\<close> the build makes of it.
\<close>

type_synonym lims = "(int option \<times> int option) option"

fun lims_slice :: "lims \<Rightarrow> int option \<times> int option" where
  "lims_slice None = (None, None)"
| "lims_slice (Some (lo, hi)) = (lo, hi)"

text \<open>
  Python's resolution of the bounds of a slice without step on an axis of
  length \<open>n\<close>: a negative bound counts from the end, and both are clipped to
  \<open>0..n\<close>.
\<close>

definition clip_index :: "nat \<Rightarrow> int \<Rightarrow> nat" where
  "clip_index n v = (if v < 0 then nat (max 0 (v + int n)) else min (nat v) n)"

definition slice_start :: "nat \<Rightarrow> int option \<times> int option \<Rightarrow> nat" where
  "slice_start n sl = (case fst sl of None \<Rightarrow> 0 | Some a \<Rightarrow> clip_index n a)"

definition slice_stop :: "nat \<Rightarrow> int option \<times> int option \<Rightarrow> nat" where
  "slice_stop n sl = (case snd sl of None \<Rightarrow> n | Some b \<Rightarrow> clip_index n b)"

text \<open>\<open>array[xslice, yslice]\<close>.\<close>

definition crop :: "ndarray \<Rightarrow> int option \<times> int option \<Rightarrow> int option \<times> int option \<Rightarrow> ndarray" where
  "crop array xslice yslice =
     (let r0 = slice_start (nrows array) xslice;
          r1 = slice_stop (nrows array) xslice;
          c0 = slice_start (ncols array) yslice;
          c1 = slice_stop (ncols array) yslice
      in \<lparr>dtype = dtype array, nrows = r1 - r0, ncols = c1 - c0,
          elems = concat (map (\<lambda>i. map (\<lambda>j. elems array ! (i * ncols array + j)) [c0..<c1])
                              [r0..<r1])\<rparr>)"

section \<open>The number of scale levels\<close>

text \<open>
  The value of \<open>np.ceil(np.log2(x))\<close>: an integral float, or one of the special
  values the expression takes at zero and below. The logarithm and the
  quotient are taken over the reals (the rounding of floating-point
  arithmetic is not modelled).
\<close>

datatype np_float = NegInf | Fin int | NaN

text \<open>
  \<open>np.ceil(np.log2(s / (c // 1)))\<close> for the integers \<open>s = img_data.shape[d]\<close>
  and \<open>c = chunk_size[d]\<close>: the division of two Python integers raises on a
  zero divisor; \<open>log2\<close> is minus infinity at zero and not a number below.
\<close>

definition ceil_log2_ratio :: "int \<Rightarrow> int \<Rightarrow> error + np_float" where
  "ceil_log2_ratio s c =
     (if c = 0 then Inl ZeroDivisionError
      else if s = 0 then Inr NegInf
      else if (s < 0) \<noteq> (c < 0) then Inr NaN
      else Inr (Fin \<lceil>log 2 (real_of_int s / real_of_int c)\<rceil>))"

text \<open>
  The same ceiling computed on integers, by doubling the smaller of the two
  numbers until it reaches the other.
\<close>

function clog_up :: "int \<Rightarrow> int \<Rightarrow> int" where
  "clog_up s c = (if 0 < c \<and> c < s then 1 + clog_up s (2 * c) else 0)"
  by pat_completeness auto
termination
  by (relation "measure (\<lambda>(s, c). nat (s - c))") auto

function clog_down :: "int \<Rightarrow> int \<Rightarrow> int" where
  "clog_down s c = (if 0 < s \<and> 2 * s \<le> c then clog_down (2 * s) c - 1 else 0)"
  by pat_completeness auto
termination
  by (relation "measure (\<lambda>(s, c). nat (c - s))") auto

declare clog_up.simps [simp del] clog_down.simps [simp del]

definition ceil_log2_int :: "int \<Rightarrow> int \<Rightarrow> int" where
  "ceil_log2_int s c = (if c < s then clog_up s c else clog_down s c)"

text \<open>
  Python's \<open>max(a, b)\<close> keeps \<open>a\<close> unless \<open>b > a\<close>, and every comparison with
  not-a-number is false; \<open>int\<close> of a float raises on the special values.
\<close>

fun float_gt :: "np_float \<Rightarrow> np_float \<Rightarrow> bool" where
  "float_gt (Fin b) (Fin a) = (b > a)"
| "float_gt (Fin b) NegInf = True"
| "float_gt _ _ = False"

definition py_max :: "np_float \<Rightarrow> np_float \<Rightarrow> np_float" where
  "py_max a b = (if float_gt b a then b else a)"

fun py_int :: "np_float \<Rightarrow> error + int" where
  "py_int (Fin k) = Inr k"
| "py_int NegInf = Inl OverflowError"
| "py_int NaN = Inl ValueError"

text \<open>
  The computation both builds share:
  \<open>min(10, int(max(ceil(log2(shape[0] / chunk[0])), ceil(log2(shape[1] / chunk[1])))))\<close>.
\<close>

definition compute_scale_levels :: "int \<times> int \<Rightarrow> int \<times> int \<Rightarrow> error + int" where
  "compute_scale_levels shp chunk =
     (case ceil_log2_ratio (fst shp) (fst chunk) of
        Inl e \<Rightarrow> Inl e
      | Inr a \<Rightarrow>
          (case ceil_log2_ratio (snd shp) (snd chunk) of
             Inl e \<Rightarrow> Inl e
           | Inr b \<Rightarrow>
               (case py_int (py_max a b) of
                  Inl e \<Rightarrow> Inl e
                | Inr k \<Rightarrow> Inr (min 10 k))))"

text \<open>
  The spec's formula for positive shapes and chunk sizes,
  \<open>min(10, ceil(log2(max_d(shape[d] / chunk_size[d]))))\<close>, over the two
  resampled axes.
\<close>

definition spec_scale_levels :: "int \<times> int \<Rightarrow> int \<times> int \<Rightarrow> int" where
  "spec_scale_levels shp chunk =
     min 10 \<lceil>log 2 (max (real_of_int (fst shp) / real_of_int (fst chunk))
                        (real_of_int (snd shp) / real_of_int (snd chunk)))\<rceil>"

section \<open>The stores and the builds\<close>

text \<open>
  The group a build writes: its two attributes (absent until written), the
  full-resolution array (\<open>"image"\<close> or \<open>"volume"\<close>) and the downsampled arrays,
  keyed by their scale, in the order of creation.
\<close>

record ('b, 'd) store =
  attr_multiscale :: "bool option"
  attr_scale_levels :: "int option"
  base :: "'b option"
  downsampled :: "(int \<times> 'd) list"

text \<open>
  A failed build returns its exception and the state of the destination at
  that moment (\<open>None\<close> when \<open>open_store\<close> had not been reached).
\<close>

type_synonym ('b, 'd) build_result = "(error \<times> ('b, 'd) store option) + ('b, 'd) store"

subsection \<open>Images\<close>

text \<open>
  The array \<open>"image"\<close> holds the data it is given. An array
  \<open>"image_downsampled{scale}"\<close> holds
  \<open>skimage.transform.rescale(source, 1 / 2 ** scale, preserve_range=True,
  anti_aliasing=...).astype(dtype)\<close>; the resampling filter is external, so the
  array is recorded as that call.
\<close>

record base_image =
  img :: ndarray
  img_chunks :: "int \<times> int"

record ds_image =
  ds_source :: ndarray
  ds_anti_aliasing :: bool
  ds_dtype :: np_dtype
  ds_chunks :: "int \<times> int"

text \<open>
  \<open>PapyrusImage.build_from_image\<close>; \<open>exists\<close> is \<open>os.path.exists(zarrpath)\<close>,
  \<open>img_data\<close> the decoded image and \<open>multi\<close> the parameter \<open>multiscale\<close>. Two
  failures come from the libraries the build calls: the store divides by the
  chunk shape when \<open>root.array\<close> writes level 0 (\<open>ZeroDivisionError\<close> on a chunk
  shape with a zero), and \<open>skimage.transform.rescale\<close> raises \<open>ValueError\<close> on
  an array without elements.
\<close>

definition build_from_image ::
  "bool \<Rightarrow> ndarray \<Rightarrow> (int \<times> int) option \<Rightarrow> bool \<Rightarrow> lims \<Rightarrow> lims
     \<Rightarrow> (base_image, ds_image) build_result" where
  "build_from_image exists img_data chunk_size multi xlims ylims =
     (let chunk = (case chunk_size of None \<Rightarrow> (CHUNK_SIZE, CHUNK_SIZE) | Some c \<Rightarrow> c)
      in if exists then Inl (AlreadyExists, None)
         else (case get_min_datatype img_data of
                 Inl e \<Rightarrow> Inl (e, None)
               | Inr dt \<Rightarrow>
                   (let cropped = crop (astype img_data dt) (lims_slice xlims) (lims_slice ylims);
                        opened = \<lparr>attr_multiscale = None, attr_scale_levels = None,
                                  base = None, downsampled = []\<rparr>;
                        grp = \<lparr>attr_multiscale = Some multi, attr_scale_levels = None,
                               base = Some \<lparr>img = cropped, img_chunks = chunk\<rparr>,
                               downsampled = []\<rparr>
                    in if fst chunk = 0 \<or> snd chunk = 0
                       then Inl (ZeroDivisionError, Some opened)
                       else if \<not> multi then Inr grp
                       else (case compute_scale_levels
                                    (int (nrows cropped), int (ncols cropped)) chunk of
                               Inl e \<Rightarrow> Inl (e, Some grp)
                             | Inr levels \<Rightarrow>
                                 if 1 \<le> levels \<and> (nrows cropped = 0 \<or> ncols cropped = 0)
                                 then Inl (ValueError,
                                           Some (grp\<lparr>attr_scale_levels := Some levels\<rparr>))
                                 else
                                 Inr (grp\<lparr>attr_scale_levels := Some levels,
                                          downsampled :=
                                            map (\<lambda>scale.
                                                  (scale,
                                                   \<lparr>ds_source = cropped,
                                                    ds_anti_aliasing = (dtype cropped \<noteq> Bool8),
                                                    ds_dtype = dtype cropped,
                                                    ds_chunks = chunk\<rparr>))
                                                [1..levels]\<rparr>)))))"

text \<open>
  \<open>PapyrusImage.__init__\<close> on an existing path (\<open>None\<close>: the path does not
  exist): the attributes and the shape it reads from the group.
\<close>

definition open_image :: "(base_image, ds_image) store option \<Rightarrow> error + (int \<times> int) handle" where
  "open_image st =
     (case st of
        None \<Rightarrow> Inl DoesNotExist
      | Some grp \<Rightarrow>
          (case attr_multiscale grp of
             None \<Rightarrow> Inl KeyError
           | Some m \<Rightarrow>
               (case base grp of
                  None \<Rightarrow> Inl AttributeError
                | Some b \<Rightarrow>
                    (let shp = (int (nrows (img b)), int (ncols (img b)))
                     in if m then
                          (case attr_scale_levels grp of
                             None \<Rightarrow> Inl KeyError
                           | Some levels \<Rightarrow>
                               Inr \<lparr>multiscale = m, shape = shp, scale_levels = levels\<rparr>)
                        else Inr \<lparr>multiscale = m, shape = shp, scale_levels = 0\<rparr>))))"

subsection \<open>Volumes\<close>

text \<open>
  The arrays of a volume, by their metadata (the pixel contents of a volume
  are not modelled). \<open>"volume"\<close> is created by \<open>root.zeros\<close> with the dtype of
  the first plane; \<open>"volume_downsampled{scale}"\<close> is created by \<open>root.zeros\<close>
  with the shape of the rescaled plane, which the external filter decides,
  recorded as the shape of the plane that is rescaled.
\<close>

record base_volume =
  vol_dtype :: np_dtype
  vol_shape :: "nat \<times> nat \<times> nat"
  vol_chunks :: "int \<times> int \<times> int"

record ds_volume =
  dsv_dtype :: np_dtype
  dsv_plane :: "nat \<times> nat"
  dsv_depth :: nat
  dsv_chunks :: "int \<times> int \<times> int"

text \<open>
  The dtype of an array created without one: zarr passes \<open>None\<close> to \<open>np.dtype\<close>,
  which is \<open>float64\<close>.
\<close>

definition zarr_default_dtype :: np_dtype where
  "zarr_default_dtype = Float64"

text \<open>
  \<open>np.arange(a, b, step=k)\<close> on integers (\<open>None\<close> is step 1): \<open>ceil((b - a) / k)\<close>
  elements from \<open>a\<close> in steps of \<open>k\<close>.
\<close>

definition np_arange :: "int \<Rightarrow> int \<Rightarrow> int option \<Rightarrow> error + int list" where
  "np_arange a b step =
     (case step of
        None \<Rightarrow> Inr [a..b - 1]
      | Some k \<Rightarrow>
          (if k = 0 then Inl ZeroDivisionError
           else Inr (map (\<lambda>i. a + i * k) [0..- ((a - b) div k) - 1])))"

text \<open>
  The depth indices the build requires. \<open>imgfiles\<close> is the dictionary from the
  number in a file's name to the plane in that file. With \<open>zlims\<close> given the
  source calls the built-in \<open>range(zstart, zstop, step=zstride)\<close>, and \<open>range\<close>
  takes no keyword arguments: the call raises \<open>TypeError\<close> whatever the values.
\<close>

definition dict_keys :: "(int \<times> 'v) list \<Rightarrow> int list" where
  "dict_keys d = map fst d"

definition zrange_of :: "(int \<times> 'v) list \<Rightarrow> lims \<Rightarrow> int option \<Rightarrow> error + int list" where
  "zrange_of imgfiles zlims zstride =
     (case zlims of
        None \<Rightarrow>
          (case dict_keys imgfiles of
             [] \<Rightarrow> Inl ValueError
           | k # ks \<Rightarrow> np_arange (fold min ks k) (fold max ks k + 1) zstride)
      | Some (zstart, zstop) \<Rightarrow>
          (case (zstop, dict_keys imgfiles) of
             (None, []) \<Rightarrow> Inl ValueError
           | _ \<Rightarrow> Inl TypeError))"

text \<open>The loading loop: \<open>tifffile.imread(imgfiles[img_index])[xslice, yslice]\<close>.\<close>

fun load_planes ::
  "(int \<times> ndarray) list \<Rightarrow> int option \<times> int option \<Rightarrow> int option \<times> int option
     \<Rightarrow> int list \<Rightarrow> error + ndarray list" where
  "load_planes imgfiles xslice yslice [] = Inr []"
| "load_planes imgfiles xslice yslice (z # zs) =
     (case map_of imgfiles z of
        None \<Rightarrow> Inl KeyError
      | Some p \<Rightarrow>
          (case load_planes imgfiles xslice yslice zs of
             Inl e \<Rightarrow> Inl e
           | Inr ps \<Rightarrow> Inr (crop p xslice yslice # ps)))"

text \<open>
  \<open>PapyrusVolume.build_from_tiffdir\<close>. The check of the required indices comes
  before \<open>open_store\<close>. After the loading loop \<open>img_data\<close> is the last plane
  loaded (unbound when no plane was). Three failures come from the libraries
  the build calls: the store divides by the chunk shape when the volume is
  written (\<open>ZeroDivisionError\<close> on a chunk shape with a zero), the store
  refuses with \<open>ValueError\<close> the assignment \<open>volume[:,:,z_index] = img_data\<close>
  of a plane whose shape is not that of the first plane, and
  \<open>skimage.transform.rescale\<close> raises \<open>ValueError\<close> on a plane without elements.
\<close>

definition build_from_tiffdir ::
  "bool \<Rightarrow> (int \<times> ndarray) list \<Rightarrow> (int \<times> int \<times> int) option \<Rightarrow> bool
     \<Rightarrow> lims \<Rightarrow> lims \<Rightarrow> lims \<Rightarrow> int option \<Rightarrow> (base_volume, ds_volume) build_result" where
  "build_from_tiffdir exists imgfiles chunk_size multi xlims ylims zlims zstride =
     (let chunk = (case chunk_size of None \<Rightarrow> (CHUNK_SIZE, CHUNK_SIZE, 1) | Some c \<Rightarrow> c);
          opened = \<lparr>attr_multiscale = None, attr_scale_levels = None,
                    base = None, downsampled = []\<rparr>
      in if exists then Inl (AlreadyExists, None)
         else (case zrange_of imgfiles zlims zstride of
                 Inl e \<Rightarrow> Inl (e, None)
               | Inr zrange \<Rightarrow>
          (case List.find (\<lambda>z. z \<notin> set (dict_keys imgfiles)) zrange of
             Some z \<Rightarrow> Inl (MissingImageFile z, None)
           | None \<Rightarrow>
          (case load_planes imgfiles (lims_slice xlims) (lims_slice ylims) zrange of
             Inl e \<Rightarrow> Inl (e, Some opened)
           | Inr [] \<Rightarrow>
               (let grp = opened\<lparr>attr_multiscale := Some multi\<rparr>
                in if multi then Inl (UnboundLocalError, Some grp) else Inr grp)
           | Inr (p # ps) \<Rightarrow>
               (let img_data = last (p # ps);
                    volume = \<lparr>vol_dtype = dtype p,
                              vol_shape = (nrows p, ncols p, length zrange),
                              vol_chunks = chunk\<rparr>;
                    grp = \<lparr>attr_multiscale = Some multi, attr_scale_levels = None,
                           base = Some volume, downsampled = []\<rparr>
                in if fst chunk = 0 \<or> fst (snd chunk) = 0 \<or> snd (snd chunk) = 0
                   then Inl (ZeroDivisionError, Some opened)
                   else if \<not> list_all (\<lambda>q. nrows q = nrows p \<and> ncols q = ncols p) ps
                   then Inl (ValueError, Some (opened\<lparr>base := Some volume\<rparr>))
                   else if \<not> multi then Inr grp
                   else (case compute_scale_levels
                                (int (nrows img_data), int (ncols img_data))
                                (fst chunk, fst (snd chunk)) of
                           Inl e \<Rightarrow> Inl (e, Some grp)
                         | Inr levels \<Rightarrow>
                             if 1 \<le> levels \<and> (nrows p = 0 \<or> ncols p = 0)
                             then Inl (ValueError,
                                       Some (grp\<lparr>attr_scale_levels := Some levels\<rparr>))
                             else
                             Inr (grp\<lparr>attr_scale_levels := Some levels,
                                      downsampled :=
                                        map (\<lambda>scale.
                                              (scale,
                                               \<lparr>dsv_dtype = zarr_default_dtype,
                                                dsv_plane = (nrows p, ncols p),
                                                dsv_depth =
                                                  (length zrange + 2 ^ nat scale - 1)
                                                    div 2 ^ nat scale,
                                                dsv_chunks = chunk\<rparr>))
                                            [1..levels]\<rparr>)))))))"

text \<open>\<open>PapyrusVolume.__init__\<close> on an existing path.\<close>

definition open_volume ::
  "(base_volume, ds_volume) store option \<Rightarrow> error + (int \<times> int \<times> int) handle" where
  "open_volume st =
     (case st of
        None \<Rightarrow> Inl DoesNotExist
      | Some grp \<Rightarrow>
          (case attr_multiscale grp of
             None \<Rightarrow> Inl KeyError
           | Some m \<Rightarrow>
               (case base grp of
                  None \<Rightarrow> Inl AttributeError
                | Some b \<Rightarrow>
                    (let shp = (int (fst (vol_shape b)), int (fst (snd (vol_shape b))),
                                int (snd (snd (vol_shape b))))
                     in if m then
                          (case attr_scale_levels grp of
                             None \<Rightarrow> Inl KeyError
                           | Some levels \<Rightarrow>
                               Inr \<lparr>multiscale = m, shape = shp, scale_levels = levels\<rparr>)
                        else Inr \<lparr>multiscale = m, shape = shp, scale_levels = 0\<rparr>))))"

text \<open>The dtypes of the arrays of a finished build, level 0 first.\<close>

definition image_level_dtypes :: "(base_image, ds_image) build_result \<Rightarrow> np_dtype list" where
  "image_level_dtypes r =
     (case r of
        Inl _ \<Rightarrow> []
      | Inr grp \<Rightarrow>
          (case base grp of None \<Rightarrow> [] | Some b \<Rightarrow> [dtype (img b)])
          @ map (\<lambda>(scale, a). ds_dtype a) (downsampled grp))"

definition volume_level_dtypes :: "(base_volume, ds_volume) build_result \<Rightarrow> np_dtype list" where
  "volume_level_dtypes r =
     (case r of
        Inl _ \<Rightarrow> []
      | Inr grp \<Rightarrow>
          (case base grp of None \<Rightarrow> [] | Some b \<Rightarrow> [vol_dtype b])
          @ map (\<lambda>(scale, a). dsv_dtype a) (downsampled grp))"

section \<open>Predicates used in the statements\<close>

text \<open>
  A selector that every level accepts (an integer or a slice without step), a
  slice that carries a step, and a slice of any kind.
\<close>

fun step_free :: "selector \<Rightarrow> bool" where
  "step_free (IntSel _) = True"
| "step_free (SliceSel _ _ step) = (step = None)"
| "step_free OtherSel = False"

fun has_step :: "selector \<Rightarrow> bool" where
  "has_step (SliceSel _ _ (Some _)) = True"
| "has_step _ = False"

fun is_slice :: "selector \<Rightarrow> bool" where
  "is_slice (SliceSel _ _ _) = True"
| "is_slice _ = False"

text \<open>
  The integers a dtype represents (for \<open>float64\<close>, the range in which every
  integer is represented exactly), the integer dtypes, and an array of an
  integer dtype whose elements lie within 64 bits.
\<close>

fun holds :: "np_dtype \<Rightarrow> int \<Rightarrow> bool" where
  "holds Bool8 v = (v = 0 \<or> v = 1)"
| "holds Int8 v = (- 128 \<le> v \<and> v \<le> 127)"
| "holds UInt8 v = (0 \<le> v \<and> v \<le> 255)"
| "holds Int16 v = (- 32768 \<le> v \<and> v \<le> 32767)"
| "holds UInt16 v = (0 \<le> v \<and> v \<le> 65535)"
| "holds Int32 v = (- 2147483648 \<le> v \<and> v \<le> 2147483647)"
| "holds UInt32 v = (0 \<le> v \<and> v \<le> 4294967295)"
| "holds Int64 v = (- 9223372036854775808 \<le> v \<and> v \<le> 9223372036854775807)"
| "holds UInt64 v = (0 \<le> v \<and> v \<le> 18446744073709551615)"
| "holds Float64 v = (- 9007199254740992 \<le> v \<and> v \<le> 9007199254740992)"

definition int_dtype :: "np_dtype \<Rightarrow> bool" where
  "int_dtype d = (d \<noteq> Bool8 \<and> d \<noteq> Float64)"

definition int_array :: "ndarray \<Rightarrow> bool" where
  "int_array a = (int_dtype (dtype a)
      \<and> (\<forall>v \<in> set (elems a). - 9223372036854775808 \<le> v \<and> v \<le> 18446744073709551615))"

section \<open>The ceiling of the binary logarithm of a ratio\<close>

lemma ceiling_log2_half:
  assumes "0 < x"
  shows "\<lceil>log 2 x\<rceil> = 1 + \<lceil>log 2 (x / 2)\<rceil>"
proof -
  have "log 2 (x / 2) = log 2 x - 1"
    using assms by (simp add: log_divide)
  then show ?thesis by simp
qed

lemma ceiling_log2_unit:
  assumes "1 / 2 < x" "x \<le> 1"
  shows "\<lceil>log 2 x\<rceil> = 0"
proof -
  have "log 2 (1 / 2) < log 2 x" using assms by (simp del: log_divide)
  hence "- 1 < log 2 x" by (simp add: log_divide)
  moreover have "log 2 x \<le> 0" using assms by simp
  ultimately show ?thesis by (simp add: ceiling_eq_iff)
qed

lemma clog_up_correct:
  "0 < s \<Longrightarrow> 0 < c \<Longrightarrow> c < 2 * s \<Longrightarrow> \<lceil>log 2 (real_of_int s / real_of_int c)\<rceil> = clog_up s c"
proof (induction s c rule: clog_up.induct)
  case (1 s c)
  show ?case
  proof (cases "c < s")
    case True
    have "\<lceil>log 2 (real_of_int s / real_of_int c)\<rceil> = 1 + \<lceil>log 2 (real_of_int s / real_of_int c / 2)\<rceil>"
      using "1.prems" by (intro ceiling_log2_half) simp
    also have "real_of_int s / real_of_int c / 2 = real_of_int s / real_of_int (2 * c)" by simp
    also have "\<lceil>log 2 (real_of_int s / real_of_int (2 * c))\<rceil> = clog_up s (2 * c)"
      using "1.IH" "1.prems" True by simp
    finally show ?thesis using True "1.prems" by (subst clog_up.simps) simp
  next
    case False
    have "\<lceil>log 2 (real_of_int s / real_of_int c)\<rceil> = 0"
    proof (rule ceiling_log2_unit)
      have "real_of_int c < 2 * real_of_int s" using "1.prems" by linarith
      then show "1 / 2 < real_of_int s / real_of_int c" using "1.prems" by (simp add: field_simps)
      show "real_of_int s / real_of_int c \<le> 1" using False "1.prems" by simp
    qed
    then show ?thesis using False by (subst clog_up.simps) simp
  qed
qed

lemma clog_down_correct:
  "0 < s \<Longrightarrow> s \<le> c \<Longrightarrow> \<lceil>log 2 (real_of_int s / real_of_int c)\<rceil> = clog_down s c"
proof (induction s c rule: clog_down.induct)
  case (1 s c)
  show ?case
  proof (cases "2 * s \<le> c")
    case True
    have "\<lceil>log 2 (real_of_int (2 * s) / real_of_int c)\<rceil>
            = 1 + \<lceil>log 2 (real_of_int (2 * s) / real_of_int c / 2)\<rceil>"
      using "1.prems" by (intro ceiling_log2_half) simp
    also have "real_of_int (2 * s) / real_of_int c / 2 = real_of_int s / real_of_int c" by simp
    finally have "\<lceil>log 2 (real_of_int s / real_of_int c)\<rceil> = \<lceil>log 2 (real_of_int (2 * s) / real_of_int c)\<rceil> - 1"
      by simp
    also have "\<lceil>log 2 (real_of_int (2 * s) / real_of_int c)\<rceil> = clog_down (2 * s) c"
      using "1.IH" "1.prems" True by simp
    finally show ?thesis using True "1.prems" by (subst clog_down.simps) simp
  next
    case False
    have "\<lceil>log 2 (real_of_int s / real_of_int c)\<rceil> = 0"
    proof (rule ceiling_log2_unit)
      have "real_of_int c < 2 * real_of_int s" using False by linarith
      then show "1 / 2 < real_of_int s / real_of_int c" using "1.prems" by (simp add: field_simps)
      show "real_of_int s / real_of_int c \<le> 1" using "1.prems" by simp
    qed
    then show ?thesis using False by (subst clog_down.simps) simp
  qed
qed

lemma ceil_log2_int_correct:
  "0 < s \<Longrightarrow> 0 < c \<Longrightarrow> \<lceil>log 2 (real_of_int s / real_of_int c)\<rceil> = ceil_log2_int s c"
  by (simp add: ceil_log2_int_def clog_up_correct clog_down_correct)

section \<open>The level-selection loop\<close>

lemma select_scale_lower: "scale \<le> select_scale levels scale sz"
proof (induction levels scale sz rule: select_scale.induct)
  case (1 levels scale sz)
  show ?case
  proof (cases "scale < levels \<and> sz > CHUNK_SIZE div 4")
    case True
    with "1.IH" have "scale + 1 \<le> select_scale levels (scale + 1) (sz div 2)" by simp
    with True show ?thesis by (subst select_scale.simps) simp
  next
    case False
    then show ?thesis by (subst select_scale.simps) auto
  qed
qed

lemma select_scale_upper: "scale \<le> levels \<Longrightarrow> select_scale levels scale sz \<le> levels"
proof (induction levels scale sz rule: select_scale.induct)
  case (1 levels scale sz)
  show ?case
  proof (cases "scale < levels \<and> sz > CHUNK_SIZE div 4")
    case True
    with "1.IH" have "select_scale levels (scale + 1) (sz div 2) \<le> levels" by simp
    with True show ?thesis by (subst select_scale.simps) simp
  next
    case False
    with "1.prems" show ?thesis by (subst select_scale.simps) auto
  qed
qed

lemma select_scale_stop:
  "\<not> (scale < levels \<and> sz > CHUNK_SIZE div 4) \<Longrightarrow> select_scale levels scale sz = scale"
  by (subst select_scale.simps) auto

lemma div_half_power: "(sz::int) div 2 div 2 ^ j = sz div 2 ^ Suc j"
  by (simp add: zdiv_zmult2_eq)

lemma select_scale_above:
  "j < nat (select_scale levels scale sz - scale) \<Longrightarrow> sz div 2 ^ j > CHUNK_SIZE div 4"
proof (induction levels scale sz arbitrary: j rule: select_scale.induct)
  case (1 levels scale sz)
  show ?case
  proof (cases "scale < levels \<and> sz > CHUNK_SIZE div 4")
    case True
    then have eq: "select_scale levels scale sz = select_scale levels (scale + 1) (sz div 2)"
      by (subst select_scale.simps) simp
    show ?thesis
    proof (cases j)
      case 0
      with True show ?thesis by simp
    next
      case (Suc i)
      with "1.prems" eq have "i < nat (select_scale levels (scale + 1) (sz div 2) - (scale + 1))"
        by simp
      with "1.IH" True have "sz div 2 div 2 ^ i > CHUNK_SIZE div 4" by simp
      with Suc show ?thesis by (simp only: div_half_power)
    qed
  next
    case False
    with "1.prems" show ?thesis by (simp add: select_scale_stop)
  qed
qed

lemma select_scale_below:
  "select_scale levels scale sz < levels \<Longrightarrow>
     sz div 2 ^ nat (select_scale levels scale sz - scale) \<le> CHUNK_SIZE div 4"
proof (induction levels scale sz rule: select_scale.induct)
  case (1 levels scale sz)
  show ?case
  proof (cases "scale < levels \<and> sz > CHUNK_SIZE div 4")
    case True
    then have eq: "select_scale levels scale sz = select_scale levels (scale + 1) (sz div 2)"
      by (subst select_scale.simps) simp
    let ?k = "select_scale levels (scale + 1) (sz div 2)"
    have le: "scale + 1 \<le> ?k" by (rule select_scale_lower)
    from "1.IH" True "1.prems" eq
    have "sz div 2 div 2 ^ nat (?k - (scale + 1)) \<le> CHUNK_SIZE div 4" by simp
    then have "sz div 2 ^ Suc (nat (?k - (scale + 1))) \<le> CHUNK_SIZE div 4"
      by (simp only: div_half_power)
    moreover have "Suc (nat (?k - (scale + 1))) = nat (?k - scale)" using le by simp
    ultimately show ?thesis using eq by simp
  next
    case False
    then have "select_scale levels scale sz = scale" by (rule select_scale_stop)
    with False "1.prems" show ?thesis by simp
  qed
qed

lemma downsample_slice_plain:
  "0 \<le> k \<Longrightarrow> downsample_slice (SliceSel a b None) k =
     Inr (SliceSel (map_option (\<lambda>v. v div 2 ^ nat k) a) (map_option (\<lambda>v. v div 2 ^ nat k) b) None)"
  by (cases a; cases b) simp_all

section \<open>Rebasing lists of selectors\<close>

lemma downsample_slice_step_free:
  "step_free x \<Longrightarrow> \<exists>x'. downsample_slice x k = Inr x'"
  by (cases x) auto

lemma downsample_all_step_free:
  "list_all step_free sels \<Longrightarrow> \<exists>sels'. downsample_all sels k = Inr sels'"
proof (induction sels)
  case Nil
  then show ?case by simp
next
  case (Cons x xs)
  then obtain x' xs' where "downsample_slice x k = Inr x'" "downsample_all xs k = Inr xs'"
    using downsample_slice_step_free [of x k] by auto
  then show ?case by (simp del: downsample_slice.simps)
qed

lemma downsample_slice_has_step:
  "has_step x \<Longrightarrow> k \<noteq> 0 \<Longrightarrow> downsample_slice x k = Inl StepSlices"
  by (cases x rule: has_step.cases) auto

lemma downsample_slice_not_other:
  "x \<noteq> OtherSel \<Longrightarrow> downsample_slice x k = Inl StepSlices \<or> (\<exists>x'. downsample_slice x k = Inr x')"
  by (cases x) auto

lemma downsample_all_has_step:
  "k \<noteq> 0 \<Longrightarrow> OtherSel \<notin> set sels \<Longrightarrow> \<exists>x \<in> set sels. has_step x \<Longrightarrow>
     downsample_all sels k = Inl StepSlices"
proof (induction sels)
  case Nil
  then show ?case by simp
next
  case (Cons x xs)
  show ?case
  proof (cases "has_step x")
    case True
    with Cons.prems show ?thesis
      by (simp add: downsample_slice_has_step del: downsample_slice.simps)
  next
    case False
    with Cons have "downsample_all xs k = Inl StepSlices" by auto
    moreover from Cons.prems have "x \<noteq> OtherSel" by auto
    ultimately show ?thesis
      using downsample_slice_not_other [of x k]
      by (auto simp del: downsample_slice.simps)
  qed
qed

lemma get_slice_size_slice:
  "is_slice x \<Longrightarrow> get_slice_size x n = Inl StepSlices \<and> has_step x
                   \<or> (\<exists>s. get_slice_size x n = Inr s) \<and> \<not> has_step x"
  by (cases x rule: has_step.cases) auto

lemma is_slice_not_int: "is_slice x \<Longrightarrow> \<not> is_int x"
  by (cases x) auto

section \<open>Requests\<close>

text \<open>The read of a volume, on three slices without step, at the level its loop selects.\<close>

lemma implicit_range_request_volume:
  fixes v :: "(int \<times> int \<times> int) handle"
  assumes x: "x = SliceSel xa xb None" and y: "y = SliceSel ya yb None"
    and z: "z = SliceSel za zb None"
    and sz: "sz = max ((case xb of None \<Rightarrow> fst (shape v) | Some b \<Rightarrow> b)
                        - (case xa of None \<Rightarrow> 0 | Some a \<Rightarrow> a))
                 (max ((case yb of None \<Rightarrow> fst (snd (shape v)) | Some b \<Rightarrow> b)
                        - (case ya of None \<Rightarrow> 0 | Some a \<Rightarrow> a))
                      ((case zb of None \<Rightarrow> snd (snd (shape v)) | Some b \<Rightarrow> b)
                        - (case za of None \<Rightarrow> 0 | Some a \<Rightarrow> a)))"
    and k: "k = select_scale (scale_levels v) 0 sz"
    and levels: "0 \<le> scale_levels v"
  shows "volume_getitem v [x, y, z] =
           Inr (Read (if k = 0 then Base else Downsampled k)
                  [SliceSel (map_option (\<lambda>v. v div 2 ^ nat k) xa)
                            (map_option (\<lambda>v. v div 2 ^ nat k) xb) None,
                   SliceSel (map_option (\<lambda>v. v div 2 ^ nat k) ya)
                            (map_option (\<lambda>v. v div 2 ^ nat k) yb) None,
                   SliceSel (map_option (\<lambda>v. v div 2 ^ nat k) za)
                            (map_option (\<lambda>v. v div 2 ^ nat k) zb) None])"
proof -
  have k0: "0 \<le> k" unfolding k by (rule select_scale_lower)
  have k1: "k \<le> scale_levels v" unfolding k using levels by (rule select_scale_upper)
  have sx: "get_slice_size x (fst (shape v)) =
      Inr ((case xb of None \<Rightarrow> fst (shape v) | Some b \<Rightarrow> b) - (case xa of None \<Rightarrow> 0 | Some a \<Rightarrow> a))"
    by (simp add: x)
  have sy: "get_slice_size y (fst (snd (shape v))) =
      Inr ((case yb of None \<Rightarrow> fst (snd (shape v)) | Some b \<Rightarrow> b)
            - (case ya of None \<Rightarrow> 0 | Some a \<Rightarrow> a))"
    by (simp add: y)
  have sz': "get_slice_size z (snd (snd (shape v))) =
      Inr ((case zb of None \<Rightarrow> snd (snd (shape v)) | Some b \<Rightarrow> b)
            - (case za of None \<Rightarrow> 0 | Some a \<Rightarrow> a))"
    by (simp add: z)
  have ds: "downsample_all [x, y, z] k =
      Inr [SliceSel (map_option (\<lambda>v. v div 2 ^ nat k) xa) (map_option (\<lambda>v. v div 2 ^ nat k) xb) None,
           SliceSel (map_option (\<lambda>v. v div 2 ^ nat k) ya) (map_option (\<lambda>v. v div 2 ^ nat k) yb) None,
           SliceSel (map_option (\<lambda>v. v div 2 ^ nat k) za) (map_option (\<lambda>v. v div 2 ^ nat k) zb) None]"
    using k0 by (simp add: x y z downsample_slice_plain del: downsample_slice.simps)
  have not_int: "\<not> is_int x" "\<not> is_int y" "\<not> is_int z" by (simp_all add: x y z)
  show ?thesis
    using k0 k1 not_int
    by (simp add: volume_getitem_def sx sy sz' read_scaled_def ds sz [symmetric] k [symmetric]
             del: get_slice_size.simps downsample_all.simps)
qed

text \<open>
  C7. An implicit-level request in which a selector is an integer reads level
  0 with the key unchanged, whatever the handle's \<open>scale_levels\<close> and shape,
  for an image and for a volume.
\<close>

theorem scalar_bypasses_level_selection:
  "(is_int x \<or> is_int y \<longrightarrow> image_getitem h [x, y] = Inr (Read Base [x, y]))
   \<and> (is_int x \<or> is_int y \<or> is_int z \<longrightarrow> volume_getitem v [x, y, z] = Inr (Read Base [x, y, z]))"
  by (simp add: image_getitem_def volume_getitem_def)

theorem scalar_bypasses_level_selection_witness:
  "image_getitem \<lparr>multiscale = True, shape = (4096, 4096), scale_levels = 2\<rparr>
     [IntSel 5, SliceSel (Some 0) (Some 4000) None] =
     Inr (Read Base [IntSel 5, SliceSel (Some 0) (Some 4000) None])
   \<and> volume_getitem \<lparr>multiscale = True, shape = (4096, 4096, 65), scale_levels = 2\<rparr>
     [SliceSel (Some 0) (Some 4000) None, SliceSel (Some 0) (Some 4000) None, IntSel 3] =
     Inr (Read Base [SliceSel (Some 0) (Some 4000) None, SliceSel (Some 0) (Some 4000) None,
                     IntSel 3])"
  using scalar_bypasses_level_selection
    [where x = "IntSel 5" and y = "SliceSel (Some 0) (Some 4000) None"
       and h = "\<lparr>multiscale = True, shape = (4096, 4096), scale_levels = 2\<rparr>"]
    scalar_bypasses_level_selection
    [where x = "SliceSel (Some 0) (Some 4000) None" and y = "SliceSel (Some 0) (Some 4000) None"
       and z = "IntSel 3"
       and v = "\<lparr>multiscale = True, shape = (4096, 4096, 65), scale_levels = 2\<rparr>"]
  by simp

text \<open>
  C8. In an explicit-level request the last selector is checked before
  anything is read: a level that is not an integer, a negative level and a
  level above \<open>scale_levels\<close> each fail with their own error, in that order. A
  request at the level \<open>scale_levels\<close> itself (of a handle with
  \<open>scale_levels \<ge> 0\<close>) whose selectors are integers or slices without step
  reads that level with the selectors rebased.
\<close>

theorem explicit_level_checks:
  "(\<not> is_int lv \<longrightarrow> image_getitem h [x, y, lv] = Inl NonIntegerLevel
                   \<and> volume_getitem v [x, y, z, lv] = Inl NonIntegerLevel)
   \<and> (l < 0 \<longrightarrow> image_getitem h [x, y, IntSel l] = Inl NegativeLevel
               \<and> volume_getitem v [x, y, z, IntSel l] = Inl NegativeLevel)
   \<and> (0 \<le> l \<and> scale_levels h < l \<longrightarrow>
        image_getitem h [x, y, IntSel l] = Inl (OnlyLevels (scale_levels h)))
   \<and> (0 \<le> l \<and> scale_levels v < l \<longrightarrow>
        volume_getitem v [x, y, z, IntSel l] = Inl (OnlyLevels (scale_levels v)))
   \<and> (0 \<le> scale_levels h \<and> step_free x \<and> step_free y \<longrightarrow>
        (\<exists>sels. downsample_all [x, y] (scale_levels h) = Inr sels
           \<and> image_getitem h [x, y, IntSel (scale_levels h)] =
               Inr (Read (if scale_levels h = 0 then Base else Downsampled (scale_levels h)) sels)))
   \<and> (0 \<le> scale_levels v \<and> step_free x \<and> step_free y \<and> step_free z \<longrightarrow>
        (\<exists>sels. downsample_all [x, y, z] (scale_levels v) = Inr sels
           \<and> volume_getitem v [x, y, z, IntSel (scale_levels v)] =
               Inr (Read (if scale_levels v = 0 then Base else Downsampled (scale_levels v)) sels)))"
proof -
  have a: "\<not> is_int lv \<Longrightarrow> read_scaled n sels lv = Inl NonIntegerLevel" for n sels
    by (cases lv) (simp_all add: read_scaled_def)
  have b: "l < 0 \<Longrightarrow> read_scaled n sels (IntSel l) = Inl NegativeLevel" for n sels
    by (simp add: read_scaled_def)
  have c: "0 \<le> l \<Longrightarrow> n < l \<Longrightarrow> read_scaled n sels (IntSel l) = Inl (OnlyLevels n)" for n sels
    by (simp add: read_scaled_def)
  have d: "0 \<le> n \<Longrightarrow> list_all step_free sels \<Longrightarrow>
      \<exists>sels'. downsample_all sels n = Inr sels'
        \<and> read_scaled n sels (IntSel n) = Inr (Read (if n = 0 then Base else Downsampled n) sels')"
    for n sels
    using downsample_all_step_free [of sels n] by (auto simp add: read_scaled_def)
  show ?thesis
    using a b c d [of "scale_levels h" "[x, y]"] d [of "scale_levels v" "[x, y, z]"]
    by (simp add: image_getitem_def volume_getitem_def del: downsample_all.simps)
qed

theorem explicit_level_checks_witness:
  "image_getitem \<lparr>multiscale = True, shape = (4096, 4096), scale_levels = 2\<rparr>
     [SliceSel (Some 0) (Some 400) None, IntSel 9, OtherSel] = Inl NonIntegerLevel
   \<and> image_getitem \<lparr>multiscale = True, shape = (4096, 4096), scale_levels = 2\<rparr>
     [SliceSel (Some 0) (Some 400) None, IntSel 9, IntSel (- 1)] = Inl NegativeLevel
   \<and> image_getitem \<lparr>multiscale = True, shape = (4096, 4096), scale_levels = 2\<rparr>
     [SliceSel (Some 0) (Some 400) None, IntSel 9, IntSel 3] = Inl (OnlyLevels 2)
   \<and> image_getitem \<lparr>multiscale = True, shape = (4096, 4096), scale_levels = 2\<rparr>
     [SliceSel (Some 0) (Some 400) None, IntSel 9, IntSel 2] =
     Inr (Read (Downsampled 2) [SliceSel (Some 0) (Some 100) None, IntSel 2])"
  using explicit_level_checks
    [where x = "SliceSel (Some 0) (Some 400) None" and y = "IntSel 9" and lv = OtherSel
       and l = "- 1"
       and h = "\<lparr>multiscale = True, shape = (4096, 4096), scale_levels = 2\<rparr>"]
    explicit_level_checks
    [where x = "SliceSel (Some 0) (Some 400) None" and y = "IntSel 9" and lv = OtherSel
       and l = 3
       and h = "\<lparr>multiscale = True, shape = (4096, 4096), scale_levels = 2\<rparr>"]
  by simp

section \<open>The number of scale levels of a build\<close>

lemma ceil_log2_ratio_pos:
  "0 < s \<Longrightarrow> 0 < c \<Longrightarrow> ceil_log2_ratio s c = Inr (Fin (ceil_log2_int s c))"
  by (simp add: ceil_log2_ratio_def ceil_log2_int_correct)

lemma ceiling_log2_max:
  assumes "0 < a" "0 < b"
  shows "\<lceil>log 2 (max a b)\<rceil> = max \<lceil>log 2 a\<rceil> \<lceil>log 2 b\<rceil>"
proof (cases "a \<le> b")
  case True
  then have "log 2 a \<le> log 2 b" using assms by simp
  then have "\<lceil>log 2 a\<rceil> \<le> \<lceil>log 2 b\<rceil>" by (rule ceiling_mono)
  with True show ?thesis by (simp add: max_def)
next
  case False
  then have "log 2 b \<le> log 2 a" using assms by simp
  then have "\<lceil>log 2 b\<rceil> \<le> \<lceil>log 2 a\<rceil>" by (rule ceiling_mono)
  with False show ?thesis by (simp add: max_def)
qed

lemma compute_scale_levels_pos:
  assumes "0 < s0" "0 < s1" "0 < c0" "0 < c1"
  shows "compute_scale_levels (s0, s1) (c0, c1) = Inr (spec_scale_levels (s0, s1) (c0, c1))"
proof -
  let ?a = "\<lceil>log 2 (real_of_int s0 / real_of_int c0)\<rceil>"
  let ?b = "\<lceil>log 2 (real_of_int s1 / real_of_int c1)\<rceil>"
  have "compute_scale_levels (s0, s1) (c0, c1) = Inr (min 10 (max ?a ?b))"
    using assms by (simp add: compute_scale_levels_def ceil_log2_ratio_def py_max_def max_def)
  moreover have "spec_scale_levels (s0, s1) (c0, c1) = min 10 (max ?a ?b)"
    using assms by (simp add: spec_scale_levels_def ceiling_log2_max)
  ultimately show ?thesis by simp
qed

lemma compute_scale_levels_int:
  assumes "0 < s0" "0 < s1" "0 < c0" "0 < c1"
  shows "compute_scale_levels (s0, s1) (c0, c1) =
           Inr (min 10 (max (ceil_log2_int s0 c0) (ceil_log2_int s1 c1)))"
  using assms by (simp add: compute_scale_levels_def ceil_log2_ratio_pos py_max_def max_def)

lemma compute_scale_levels_le_10:
  "compute_scale_levels shp chunk = Inr k \<Longrightarrow> k \<le> 10"
  by (auto simp add: compute_scale_levels_def split: sum.splits)

text \<open>Facts for evaluating a build on a given array.\<close>

lemmas eval_build =
  build_from_image_def get_min_datatype_def find_common_type_def test_types_def
  crop_def astype_def slice_start_def slice_stop_def compute_scale_levels_int
  ceil_log2_int_def clog_up.simps clog_down.simps Let_def upto.simps CHUNK_SIZE_def
  clip_index_def upt_rec

lemmas eval_tiffdir =
  build_from_tiffdir_def zrange_of_def dict_keys_def np_arange_def
  volume_level_dtypes_def image_level_dtypes_def zarr_default_dtype_def

subsection \<open>What a finished image build has written\<close>

lemma build_from_image_multiscale:
  assumes "build_from_image ex img_data cs True xl yl = Inr g"
  obtains dt levels where
    "get_min_datatype img_data = Inr dt"
    "base g = Some \<lparr>img = crop (astype img_data dt) (lims_slice xl) (lims_slice yl),
                    img_chunks = (case cs of None \<Rightarrow> (CHUNK_SIZE, CHUNK_SIZE) | Some c \<Rightarrow> c)\<rparr>"
    "compute_scale_levels
       (int (nrows (crop (astype img_data dt) (lims_slice xl) (lims_slice yl))),
        int (ncols (crop (astype img_data dt) (lims_slice xl) (lims_slice yl))))
       (case cs of None \<Rightarrow> (CHUNK_SIZE, CHUNK_SIZE) | Some c \<Rightarrow> c) = Inr levels"
    "attr_scale_levels g = Some levels"
    "attr_multiscale g = Some True"
    "map fst (downsampled g) = [1..levels]"
    "\<forall>a \<in> snd ` set (downsampled g).
        ds_dtype a = dt \<and> ds_anti_aliasing a = (dt \<noteq> Bool8)
        \<and> ds_source a = crop (astype img_data dt) (lims_slice xl) (lims_slice yl)"
  using assms
  by (auto simp add: build_from_image_def Let_def crop_def astype_def comp_def
           split: if_splits sum.splits)

lemma build_from_image_single:
  assumes "build_from_image ex img_data cs False xl yl = Inr g"
  obtains dt where
    "get_min_datatype img_data = Inr dt"
    "g = \<lparr>attr_multiscale = Some False, attr_scale_levels = None,
          base = Some \<lparr>img = crop (astype img_data dt) (lims_slice xl) (lims_slice yl),
                      img_chunks = (case cs of None \<Rightarrow> (CHUNK_SIZE, CHUNK_SIZE) | Some c \<Rightarrow> c)\<rparr>,
          downsampled = []\<rparr>"
  using assms
  by (auto simp add: build_from_image_def Let_def split: if_splits sum.splits)

text \<open>
  C1 fails on the code: nothing bounds the level count from below. An image
  of shape (100, 100) with chunk size 1024 gets \<open>scale_levels = - 3\<close>. The
  build of a one-pixel image persists \<open>scale_levels = - 10\<close>; the handle
  opened on that store reports \<open>- 10\<close>, and every implicit-level request of
  ranges on it fails with "Only -10 downsampled images in this library".
\<close>

theorem small_image_negative_scale_levels:
  "compute_scale_levels (100, 100) (CHUNK_SIZE, CHUNK_SIZE) = Inr (- 3)
   \<and> build_from_image False \<lparr>dtype = UInt8, nrows = 1, ncols = 1, elems = [5]\<rparr>
        None True None None =
       Inr \<lparr>attr_multiscale = Some True, attr_scale_levels = Some (- 10),
            base = Some \<lparr>img = \<lparr>dtype = UInt8, nrows = 1, ncols = 1, elems = [5]\<rparr>,
                        img_chunks = (1024, 1024)\<rparr>,
            downsampled = []\<rparr>
   \<and> open_image (Some \<lparr>attr_multiscale = Some True, attr_scale_levels = Some (- 10),
            base = Some \<lparr>img = \<lparr>dtype = UInt8, nrows = 1, ncols = 1, elems = [5]\<rparr>,
                        img_chunks = (1024, 1024)\<rparr>,
            downsampled = []\<rparr>) =
       Inr \<lparr>multiscale = True, shape = (1, 1), scale_levels = - 10\<rparr>
   \<and> image_getitem \<lparr>multiscale = True, shape = (1, 1), scale_levels = - 10\<rparr>
        [SliceSel None None None, SliceSel None None None] = Inl (OnlyLevels (- 10))"
proof -
  have 1: "compute_scale_levels (100, 100) (CHUNK_SIZE, CHUNK_SIZE) = Inr (- 3)"
    by (simp add: CHUNK_SIZE_def compute_scale_levels_int ceil_log2_int_def clog_down.simps)
  have 2: "build_from_image False \<lparr>dtype = UInt8, nrows = 1, ncols = 1, elems = [5]\<rparr>
        None True None None =
       Inr \<lparr>attr_multiscale = Some True, attr_scale_levels = Some (- 10),
            base = Some \<lparr>img = \<lparr>dtype = UInt8, nrows = 1, ncols = 1, elems = [5]\<rparr>,
                        img_chunks = (1024, 1024)\<rparr>,
            downsampled = []\<rparr>"
    by (simp add: eval_build)
  have 3: "open_image (Some \<lparr>attr_multiscale = Some True, attr_scale_levels = Some (- 10),
            base = Some \<lparr>img = \<lparr>dtype = UInt8, nrows = 1, ncols = 1, elems = [5]\<rparr>,
                        img_chunks = (1024, 1024)\<rparr>,
            downsampled = []\<rparr>) =
       Inr \<lparr>multiscale = True, shape = (1, 1), scale_levels = - 10\<rparr>"
    by (simp add: open_image_def)
  have 4: "image_getitem \<lparr>multiscale = True, shape = (1, 1), scale_levels = - 10\<rparr>
        [SliceSel None None None, SliceSel None None None] = Inl (OnlyLevels (- 10))"
    by (simp add: image_getitem_def read_scaled_def select_scale.simps)
  from 1 2 3 4 show ?thesis by blast
qed

section \<open>Stores without downsampled levels\<close>

lemma downsample_all_zero: "downsample_all sels 0 = Inr sels"
  by (induction sels) simp_all

lemma read_scaled_single_level:
  "read_scaled 0 sels (IntSel 0) = Inr (Read Base sels)"
  "1 \<le> l \<Longrightarrow> read_scaled 0 sels (IntSel l) = Inl (OnlyLevels 0)"
  by (simp_all add: read_scaled_def downsample_all_zero)

lemma build_from_tiffdir_single:
  assumes "build_from_tiffdir ex files cs False xl yl zl zs = Inr g"
  shows "attr_multiscale g = Some False \<and> attr_scale_levels g = None"
  using assms
  by (auto simp add: build_from_tiffdir_def Let_def
           split: if_splits sum.splits option.splits list.splits)

lemma open_volume_single:
  assumes "attr_multiscale g = Some False" "open_volume (Some g) = Inr v"
  shows "scale_levels v = 0"
  using assms by (auto simp add: open_volume_def Let_def split: option.splits)

text \<open>
  C10. A build with \<open>multiscale\<close> false that finishes persists no
  \<open>scale_levels\<close>. The handle opened on the store of an image has
  \<open>scale_levels = 0\<close>: an explicit-level request at level 0 reads level 0 with
  the selectors unchanged and one at any level from 1 fails with the error
  that names 0 levels. The same holds for every handle opened on the store
  of a volume.
\<close>

theorem single_scale_store_levels:
  assumes build: "build_from_image ex img_data cs False xl yl = Inr g"
  shows "attr_scale_levels g = None
       \<and> (\<exists>h. open_image (Some g) = Inr h \<and> scale_levels h = 0
             \<and> image_getitem h [x, y, IntSel 0] = Inr (Read Base [x, y])
             \<and> (\<forall>l \<ge> 1. image_getitem h [x, y, IntSel l] = Inl (OnlyLevels 0)))
       \<and> (build_from_tiffdir ex files csv False xl yl zl zs = Inr gv \<longrightarrow>
            attr_scale_levels gv = None
            \<and> (\<forall>v. open_volume (Some gv) = Inr v \<longrightarrow>
                  scale_levels v = 0
                  \<and> volume_getitem v [x, y, z, IntSel 0] = Inr (Read Base [x, y, z])
                  \<and> (\<forall>l \<ge> 1. volume_getitem v [x, y, z, IntSel l] = Inl (OnlyLevels 0))))"
proof -
  from build obtain dt where
    g: "g = \<lparr>attr_multiscale = Some False, attr_scale_levels = None,
          base = Some \<lparr>img = crop (astype img_data dt) (lims_slice xl) (lims_slice yl),
                      img_chunks = (case cs of None \<Rightarrow> (CHUNK_SIZE, CHUNK_SIZE) | Some c \<Rightarrow> c)\<rparr>,
          downsampled = []\<rparr>"
    by (rule build_from_image_single)
  let ?img = "crop (astype img_data dt) (lims_slice xl) (lims_slice yl)"
  let ?h = "\<lparr>multiscale = False, shape = (int (nrows ?img), int (ncols ?img)), scale_levels = 0\<rparr>"
  have 1: "attr_scale_levels g = None" by (simp add: g)
  have o: "open_image (Some g) = Inr ?h" by (simp add: g open_image_def)
  have r0: "image_getitem ?h [x, y, IntSel 0] = Inr (Read Base [x, y])"
    by (simp add: image_getitem_def read_scaled_single_level)
  have r1: "\<forall>l \<ge> 1. image_getitem ?h [x, y, IntSel l] = Inl (OnlyLevels 0)"
    by (simp add: image_getitem_def read_scaled_single_level)
  from o r0 r1 have 2: "\<exists>h. open_image (Some g) = Inr h \<and> scale_levels h = 0
             \<and> image_getitem h [x, y, IntSel 0] = Inr (Read Base [x, y])
             \<and> (\<forall>l \<ge> 1. image_getitem h [x, y, IntSel l] = Inl (OnlyLevels 0))"
    by (intro exI [of _ ?h]) simp
  have 3: "attr_scale_levels gv = None
            \<and> (\<forall>v. open_volume (Some gv) = Inr v \<longrightarrow>
                  scale_levels v = 0
                  \<and> volume_getitem v [x, y, z, IntSel 0] = Inr (Read Base [x, y, z])
                  \<and> (\<forall>l \<ge> 1. volume_getitem v [x, y, z, IntSel l] = Inl (OnlyLevels 0)))"
    if bv: "build_from_tiffdir ex files csv False xl yl zl zs = Inr gv"
  proof -
    note a = build_from_tiffdir_single [OF bv]
    have "scale_levels v = 0
                  \<and> volume_getitem v [x, y, z, IntSel 0] = Inr (Read Base [x, y, z])
                  \<and> (\<forall>l \<ge> 1. volume_getitem v [x, y, z, IntSel l] = Inl (OnlyLevels 0))"
      if "open_volume (Some gv) = Inr v" for v
      using open_volume_single [OF _ that] a
      by (simp add: volume_getitem_def read_scaled_single_level)
    with a show ?thesis by blast
  qed
  from 1 2 3 show ?thesis by blast
qed

theorem single_scale_store_levels_witness:
  "build_from_image False \<lparr>dtype = UInt16, nrows = 2, ncols = 2, elems = [0, 300, 5, 7]\<rparr>
        None False None None =
     Inr \<lparr>attr_multiscale = Some False, attr_scale_levels = None,
          base = Some \<lparr>img = \<lparr>dtype = UInt16, nrows = 2, ncols = 2, elems = [0, 300, 5, 7]\<rparr>,
                      img_chunks = (1024, 1024)\<rparr>,
          downsampled = []\<rparr>
   \<and> (\<exists>h. open_image (Some \<lparr>attr_multiscale = Some False, attr_scale_levels = None,
          base = Some \<lparr>img = \<lparr>dtype = UInt16, nrows = 2, ncols = 2, elems = [0, 300, 5, 7]\<rparr>,
                      img_chunks = (1024, 1024)\<rparr>,
          downsampled = []\<rparr>) = Inr h
         \<and> scale_levels h = 0
         \<and> image_getitem h [SliceSel None None None, IntSel 1, IntSel 0] =
             Inr (Read Base [SliceSel None None None, IntSel 1])
         \<and> image_getitem h [SliceSel None None None, IntSel 1, IntSel 1] = Inl (OnlyLevels 0))"
proof -
  let ?img = "\<lparr>dtype = UInt16, nrows = 2, ncols = 2, elems = [0, 300, 5, 7]\<rparr>"
  let ?g = "\<lparr>attr_multiscale = Some False, attr_scale_levels = None,
          base = Some \<lparr>img = ?img, img_chunks = (1024, 1024)\<rparr>, downsampled = []\<rparr>"
  have build: "build_from_image False ?img None False None None = Inr ?g"
    by (simp add: eval_build)
  from single_scale_store_levels [OF build, of "SliceSel None None None" "IntSel 1"]
  have "\<exists>h. open_image (Some ?g) = Inr h \<and> scale_levels h = 0
             \<and> image_getitem h [SliceSel None None None, IntSel 1, IntSel 0] =
                 Inr (Read Base [SliceSel None None None, IntSel 1])
             \<and> image_getitem h [SliceSel None None None, IntSel 1, IntSel 1] = Inl (OnlyLevels 0)"
    by fastforce
  with build show ?thesis by simp
qed

section \<open>The dtypes of the levels\<close>

lemma image_levels_share_dtype:
  assumes "build_from_image ex img_data cs multi xl yl = Inr g" and "base g = Some b"
  shows "\<forall>a \<in> snd ` set (downsampled g). ds_dtype a = dtype (img b)"
  using assms
  by (auto simp add: build_from_image_def Let_def split: if_splits sum.splits)

lemma volume_downsampled_dtype:
  assumes "build_from_tiffdir ex files cs multi xl yl zl zs = Inr g"
  shows "\<forall>a \<in> snd ` set (downsampled g). dsv_dtype a = Float64"
  using assms
  by (auto simp add: build_from_tiffdir_def Let_def zarr_default_dtype_def
           split: if_splits sum.splits option.splits list.splits)

text \<open>
  C6 fails on the code for volumes: \<open>"volume_downsampled{scale}"\<close> is created
  without a dtype, and so with the default of the store, \<open>float64\<close>. A volume
  of one 2 by 2 \<open>uint16\<close> plane with chunk shape (1, 1, 1) has level 0 of dtype
  \<open>uint16\<close> and level 1 of dtype \<open>float64\<close>; the image build on the same plane
  writes both levels as \<open>uint16\<close>.
\<close>

theorem volume_downsampled_levels_float64:
  "volume_level_dtypes
     (build_from_tiffdir False
        [(0, \<lparr>dtype = UInt16, nrows = 2, ncols = 2, elems = [0, 300, 5, 7]\<rparr>)]
        (Some (1, 1, 1)) True None None None None) = [UInt16, Float64]
   \<and> image_level_dtypes
     (build_from_image False \<lparr>dtype = UInt16, nrows = 2, ncols = 2, elems = [0, 300, 5, 7]\<rparr>
        (Some (1, 1)) True None None) = [UInt16, UInt16]"
  by (simp add: eval_tiffdir eval_build)

section \<open>The check of the required planes\<close>

lemma find_upto_Some:
  "List.find P [a..b] = Some z \<Longrightarrow> a \<le> z \<and> z \<le> b \<and> P z \<and> (\<forall>i. a \<le> i \<and> i < z \<longrightarrow> \<not> P i)"
proof (induction a b rule: upto.induct)
  case (1 i j)
  show ?case
  proof (cases "i \<le> j")
    case True
    then have eq: "[i..j] = i # [i + 1..j]" by (simp add: upto_rec1)
    show ?thesis
    proof (cases "P i")
      case True
      with "1.prems" eq have "z = i" by simp
      with True \<open>i \<le> j\<close> show ?thesis by auto
    next
      case False
      with "1.prems" eq have "List.find P [i + 1..j] = Some z" by simp
      with "1.IH" \<open>i \<le> j\<close>
      have *: "i + 1 \<le> z \<and> z \<le> j \<and> P z \<and> (\<forall>k. i + 1 \<le> k \<and> k < z \<longrightarrow> \<not> P k)" by simp
      have "\<not> P k" if "i \<le> k \<and> k < z" for k
        using that * False by (cases "k = i") auto
      with * show ?thesis by auto
    qed
  next
    case False
    with "1.prems" show ?thesis by simp
  qed
qed

lemma find_upto_exists:
  "a \<le> z \<Longrightarrow> z \<le> b \<Longrightarrow> P z \<Longrightarrow> \<exists>z'. List.find P [a..b] = Some z'"
  by (cases "List.find P [a..b]") (auto simp add: find_None_iff)

lemma missing_slice_reported:
  assumes keys: "dict_keys files = k # ks"
    and z: "fold min ks k \<le> z" "z \<le> fold max ks k" "z \<notin> set (dict_keys files)"
  shows "\<exists>z'. z' \<le> z \<and> z' \<notin> set (dict_keys files)
           \<and> (\<forall>i. fold min ks k \<le> i \<and> i < z' \<longrightarrow> i \<in> set (dict_keys files))
           \<and> build_from_tiffdir False files cs multi xl yl None None =
               Inl (MissingImageFile z', None)"
proof -
  let ?P = "\<lambda>z. z \<notin> set (dict_keys files)"
  let ?lo = "fold min ks k" and ?hi = "fold max ks k"
  from z obtain z' where f: "List.find ?P [?lo..?hi] = Some z'"
    using find_upto_exists [of ?lo z ?hi ?P] by auto
  note p = find_upto_Some [OF f]
  have "z' \<le> z"
  proof (rule ccontr)
    assume "\<not> z' \<le> z"
    with p z show False by auto
  qed
  moreover have "build_from_tiffdir False files cs multi xl yl None None =
               Inl (MissingImageFile z', None)"
    using f keys by (simp add: build_from_tiffdir_def zrange_of_def np_arange_def)
  ultimately show ?thesis using p by auto
qed

lemma missing_slice_example:
  "build_from_tiffdir False
     [(3, p), (7, p), (4, p), (6, p)] None True None None None None =
     Inl (MissingImageFile 5, None)"
  by (simp add: build_from_tiffdir_def zrange_of_def dict_keys_def np_arange_def upto.simps)

text \<open>
  C9 fails on the code when a z-range is requested: with \<open>zlims = (0, 100)\<close>
  the build raises \<open>TypeError\<close> at \<open>range(zstart, zstop, step=zstride)\<close>,
  before it looks for a missing plane, whatever the directory holds (nothing
  has been written then).
\<close>

theorem zlims_build_raises_type_error:
  "build_from_tiffdir False files cs multi xl yl (Some (Some 0, Some 100)) zs =
     Inl (TypeError, None)"
  by (simp add: build_from_tiffdir_def zrange_of_def split: list.splits)

section \<open>The dtype of level 0\<close>

lemma fold_min_Min: "fold min vs (v::int) = Min (set (v # vs))"
  by (rule Min.set_eq_fold [symmetric])

lemma fold_max_Max: "fold max vs (v::int) = Max (set (v # vs))"
  by (rule Max.set_eq_fold [symmetric])

lemma fold_min_props:
  "fold min vs (v::int) \<in> set (v # vs)" "x \<in> set (v # vs) \<Longrightarrow> fold min vs v \<le> x"
  unfolding fold_min_Min by (rule Min_in; simp) (rule Min_le; simp)

lemma fold_max_props:
  "fold max vs (v::int) \<in> set (v # vs)" "x \<in> set (v # vs) \<Longrightarrow> x \<le> fold max vs v"
  unfolding fold_max_Max by (rule Max_in; simp) (rule Max_ge; simp)

lemma holds_convex:
  "holds d lo \<Longrightarrow> holds d hi \<Longrightarrow> lo \<le> x \<Longrightarrow> x \<le> hi \<Longrightarrow> holds d x"
  by (cases d) auto

lemma min_scalar_type_unsigned:
  "d \<noteq> Bool8 \<Longrightarrow> 0 \<le> v \<Longrightarrow> min_scalar_type d v \<in> {UInt8, UInt16, UInt32, UInt64}"
  by simp

lemma min_scalar_type_signed:
  "d \<noteq> Bool8 \<Longrightarrow> v < 0 \<Longrightarrow> min_scalar_type d v \<in> {Int8, Int16, Int32, Int64}"
  by simp

lemma min_scalar_type_holds:
  "d \<noteq> Bool8 \<Longrightarrow> - 9223372036854775808 \<le> v \<Longrightarrow> v \<le> 18446744073709551615 \<Longrightarrow>
     holds (min_scalar_type d v) v"
  by simp

lemma find_common_type_casts:
  "can_cast a (find_common_type a b) \<and> can_cast b (find_common_type a b)"
  by (cases a; cases b; simp add: find_common_type_def test_types_def)

lemma can_cast_holds:
  "can_cast a t \<Longrightarrow> t \<noteq> Float64 \<Longrightarrow> holds a v \<Longrightarrow> holds t v"
  by (cases a; cases t; simp; linarith?)

lemma find_common_type_unsigned:
  "d \<noteq> Bool8 \<Longrightarrow> 0 \<le> lo \<Longrightarrow> lo \<le> hi \<Longrightarrow>
     find_common_type (min_scalar_type d lo) (min_scalar_type d hi) = min_scalar_type d hi"
  by (simp add: find_common_type_def test_types_def)

lemma find_common_type_signed:
  "d \<noteq> Bool8 \<Longrightarrow> hi < 0 \<Longrightarrow> lo \<le> hi \<Longrightarrow>
     find_common_type (min_scalar_type d lo) (min_scalar_type d hi) = min_scalar_type d lo"
  by (simp add: find_common_type_def test_types_def)

lemma min_scalar_type_narrowest:
  "d \<noteq> Bool8 \<Longrightarrow> int_dtype u \<Longrightarrow> holds u v \<Longrightarrow> bits (min_scalar_type d v) \<le> bits u"
  by (cases u) (auto simp add: int_dtype_def)

lemma can_cast_Bool8: "can_cast a Bool8 \<Longrightarrow> a = Bool8"
  by (cases a) simp_all

lemma get_min_datatype_cases:
  assumes "get_min_datatype a = Inr dt"
  obtains v vs where "elems a = v # vs"
    "dt = (let t = find_common_type (min_scalar_type (dtype a) (fold min vs v))
                                      (min_scalar_type (dtype a) (fold max vs v))
           in if t = UInt8 \<and> (fold max vs v = 0 \<or> fold max vs v = 1) then Bool8 else t)"
  using assms by (auto simp add: get_min_datatype_def Let_def split: list.splits if_splits)

lemma get_min_datatype_int:
  assumes ia: "int_array a" and g: "get_min_datatype a = Inr dt"
  shows "dt \<noteq> Float64 \<longrightarrow> (\<forall>x \<in> set (elems a). holds dt x)"
    and "dt = Bool8 \<longleftrightarrow> (\<forall>x \<in> set (elems a). x = 0 \<or> x = 1)"
    and "(\<forall>x \<in> set (elems a). 0 \<le> x) \<or> (\<forall>x \<in> set (elems a). x < 0) \<longrightarrow>
           (\<forall>u. int_dtype u \<and> (\<forall>x \<in> set (elems a). holds u x) \<longrightarrow> bits dt \<le> bits u)"
proof -
  from g obtain v vs where el: "elems a = v # vs"
    and dt: "dt = (let t = find_common_type (min_scalar_type (dtype a) (fold min vs v))
                                      (min_scalar_type (dtype a) (fold max vs v))
           in if t = UInt8 \<and> (fold max vs v = 0 \<or> fold max vs v = 1) then Bool8 else t)"
    by (rule get_min_datatype_cases)
  define lo where "lo = fold min vs v"
  define hi where "hi = fold max vs v"
  define d where "d = dtype a"
  define A where "A = min_scalar_type d lo"
  define B where "B = min_scalar_type d hi"
  define t where "t = find_common_type A B"
  have dt': "dt = (if t = UInt8 \<and> (hi = 0 \<or> hi = 1) then Bool8 else t)"
    using dt by (simp add: Let_def lo_def hi_def d_def A_def B_def t_def)
  have d: "d \<noteq> Bool8" using ia by (simp add: int_array_def int_dtype_def d_def)
  have lo_in: "lo \<in> set (elems a)" and hi_in: "hi \<in> set (elems a)"
    unfolding lo_def hi_def el by (rule fold_min_props fold_max_props)+
  have lo_le: "lo \<le> x" and le_hi: "x \<le> hi" if "x \<in> set (elems a)" for x
    using that unfolding lo_def hi_def el by (rule fold_min_props fold_max_props)+
  have lo_hi: "lo \<le> hi" using lo_le hi_in by simp
  have r: "- 9223372036854775808 \<le> x \<and> x \<le> 18446744073709551615" if "x \<in> set (elems a)" for x
    using ia that by (simp add: int_array_def)
  have hA: "holds A lo" unfolding A_def using d r [OF lo_in] by (intro min_scalar_type_holds) simp_all
  have hB: "holds B hi" unfolding B_def using d r [OF hi_in] by (intro min_scalar_type_holds) simp_all
  have cA: "can_cast A t" and cB: "can_cast B t"
    unfolding t_def using find_common_type_casts [of A B] by simp_all
  have A_int: "A \<noteq> Bool8"
    unfolding A_def using d by simp
  have t_nb: "t \<noteq> Bool8" using cA A_int can_cast_Bool8 by blast
  have unsigned: "t = B" if "0 \<le> lo"
    unfolding t_def A_def B_def using d that lo_hi by (rule find_common_type_unsigned)
  have signed: "t = A" if "hi < 0"
    unfolding t_def A_def B_def using d that lo_hi by (rule find_common_type_signed)
  show "dt \<noteq> Float64 \<longrightarrow> (\<forall>x \<in> set (elems a). holds dt x)"
  proof (intro impI ballI)
    fix x assume nf: "dt \<noteq> Float64" and x: "x \<in> set (elems a)"
    show "holds dt x"
    proof (cases "t = UInt8 \<and> (hi = 0 \<or> hi = 1)")
      case True
      then have "holds UInt8 lo" using can_cast_holds [OF cA _ hA] by simp
      with True lo_le [OF x] le_hi [OF x] have "x = 0 \<or> x = 1" by auto
      with True dt' show ?thesis by simp
    next
      case False
      with dt' nf have "dt = t" "t \<noteq> Float64" by auto
      moreover have "holds t lo" "holds t hi"
        using can_cast_holds [OF cA \<open>t \<noteq> Float64\<close> hA] can_cast_holds [OF cB \<open>t \<noteq> Float64\<close> hB]
        by simp_all
      ultimately show ?thesis using holds_convex [of t lo hi x] lo_le [OF x] le_hi [OF x] by simp
    qed
  qed
  show "dt = Bool8 \<longleftrightarrow> (\<forall>x \<in> set (elems a). x = 0 \<or> x = 1)"
  proof
    assume "dt = Bool8"
    with dt' t_nb have T: "t = UInt8" "hi = 0 \<or> hi = 1" by (auto split: if_splits)
    then have "holds UInt8 lo" using can_cast_holds [OF cA _ hA] by simp
    with T lo_le le_hi show "\<forall>x \<in> set (elems a). x = 0 \<or> x = 1" by fastforce
  next
    assume all: "\<forall>x \<in> set (elems a). x = 0 \<or> x = 1"
    with lo_in hi_in have "0 \<le> lo" "hi = 0 \<or> hi = 1" by auto
    moreover from this unsigned have "t = UInt8" using d by (auto simp add: B_def)
    ultimately show "dt = Bool8" using dt' by simp
  qed
  show "(\<forall>x \<in> set (elems a). 0 \<le> x) \<or> (\<forall>x \<in> set (elems a). x < 0) \<longrightarrow>
           (\<forall>u. int_dtype u \<and> (\<forall>x \<in> set (elems a). holds u x) \<longrightarrow> bits dt \<le> bits u)"
  proof (intro impI allI, elim conjE)
    fix u
    assume sign: "(\<forall>x \<in> set (elems a). 0 \<le> x) \<or> (\<forall>x \<in> set (elems a). x < 0)"
      and u: "int_dtype u" and hu: "\<forall>x \<in> set (elems a). holds u x"
    from hu lo_in hi_in have hlo: "holds u lo" and hhi: "holds u hi" by simp_all
    have "bits t \<le> bits u"
    proof -
      from sign lo_in hi_in consider "0 \<le> lo" | "hi < 0" by auto
      then show ?thesis
      proof cases
        case 1
        then show ?thesis using unsigned min_scalar_type_narrowest [OF d u hhi] by (simp add: B_def)
      next
        case 2
        then show ?thesis using signed min_scalar_type_narrowest [OF d u hlo] by (simp add: A_def)
      qed
    qed
    moreover have "bits dt \<le> bits t" using dt' by (cases t) simp_all
    ultimately show "bits dt \<le> bits u" by simp
  qed
qed

lemma dtype_crop [simp]: "dtype (crop a xs ys) = dtype a"
  by (simp add: crop_def Let_def)

lemma dtype_astype [simp]: "dtype (astype a dt) = dt"
  by (simp add: astype_def)

lemma build_from_image_base:
  assumes "build_from_image ex img_data cs multi xl yl = Inr g"
  shows "\<exists>dt b. get_min_datatype img_data = Inr dt \<and> base g = Some b
           \<and> img b = crop (astype img_data dt) (lims_slice xl) (lims_slice yl)"
  using assms
  by (auto simp add: build_from_image_def Let_def split: if_splits sum.splits)


section \<open>Implicit-level requests of ranges\<close>

lemma spec_select_scale_default:
  "spec_select_scale CHUNK_SIZE levels scale sz = select_scale levels scale sz"
proof (induction levels scale sz rule: select_scale.induct)
  case (1 levels scale sz)
  have c: "(4 * sz > CHUNK_SIZE) = (sz > CHUNK_SIZE div 4)"
    by (simp add: CHUNK_SIZE_def)
  show ?case
  proof (cases "scale < levels \<and> sz > CHUNK_SIZE div 4")
    case True
    with "1.IH" c show ?thesis
      by (subst spec_select_scale.simps, subst select_scale.simps) simp
  next
    case False
    with c show ?thesis
      by (subst spec_select_scale.simps, subst select_scale.simps) auto
  qed
qed

lemma implicit_range_request_image:
  fixes h :: "(int \<times> int) handle"
  assumes sz: "sz = max ((case xb of None \<Rightarrow> fst (shape h) | Some b \<Rightarrow> b)
                        - (case xa of None \<Rightarrow> 0 | Some a \<Rightarrow> a))
                      ((case yb of None \<Rightarrow> snd (shape h) | Some b \<Rightarrow> b)
                        - (case ya of None \<Rightarrow> 0 | Some a \<Rightarrow> a))"
    and k: "k = select_scale (scale_levels h) 0 sz"
    and levels: "0 \<le> scale_levels h"
  shows "image_getitem h [SliceSel xa xb None, SliceSel ya yb None] =
           Inr (Read (if k = 0 then Base else Downsampled k)
                  [SliceSel (map_option (\<lambda>v. v div 2 ^ nat k) xa)
                            (map_option (\<lambda>v. v div 2 ^ nat k) xb) None,
                   SliceSel (map_option (\<lambda>v. v div 2 ^ nat k) ya)
                            (map_option (\<lambda>v. v div 2 ^ nat k) yb) None])"
proof -
  have k0: "0 \<le> k" unfolding k by (rule select_scale_lower)
  have k1: "k \<le> scale_levels h" unfolding k using levels by (rule select_scale_upper)
  have ds: "downsample_all [SliceSel xa xb None, SliceSel ya yb None] k =
      Inr [SliceSel (map_option (\<lambda>v. v div 2 ^ nat k) xa) (map_option (\<lambda>v. v div 2 ^ nat k) xb) None,
           SliceSel (map_option (\<lambda>v. v div 2 ^ nat k) ya) (map_option (\<lambda>v. v div 2 ^ nat k) yb) None]"
    using k0 by (simp add: downsample_slice_plain del: downsample_slice.simps)
  show ?thesis
    using k0 k1
    by (simp add: image_getitem_def read_scaled_def ds sz [symmetric] k [symmetric]
             del: downsample_all.simps)
qed

text \<open>
  C2, as the claim states it, fails: the threshold of the loop is a quarter
  of the module constant \<open>CHUNK_SIZE\<close>, not of the chunk size of the store.
  The store built from a 2 by 2 image with chunk shape (1, 1) has
  \<open>scale_levels = 1\<close>; on its handle the request \<open>(slice(0, 2), slice(0, 2))\<close>
  reads level 0, while the loop with a quarter of the store's chunk size as
  its threshold selects level 1.
\<close>

theorem implicit_range_request_counterexample:
  "build_from_image False \<lparr>dtype = UInt8, nrows = 2, ncols = 2, elems = [1, 2, 3, 4]\<rparr>
        (Some (1, 1)) True None None =
     Inr \<lparr>attr_multiscale = Some True, attr_scale_levels = Some 1,
          base = Some \<lparr>img = \<lparr>dtype = UInt8, nrows = 2, ncols = 2, elems = [1, 2, 3, 4]\<rparr>,
                      img_chunks = (1, 1)\<rparr>,
          downsampled =
            [(1, \<lparr>ds_source = \<lparr>dtype = UInt8, nrows = 2, ncols = 2, elems = [1, 2, 3, 4]\<rparr>,
                  ds_anti_aliasing = True, ds_dtype = UInt8, ds_chunks = (1, 1)\<rparr>)]\<rparr>
   \<and> open_image (Some \<lparr>attr_multiscale = Some True, attr_scale_levels = Some 1,
          base = Some \<lparr>img = \<lparr>dtype = UInt8, nrows = 2, ncols = 2, elems = [1, 2, 3, 4]\<rparr>,
                      img_chunks = (1, 1)\<rparr>,
          downsampled =
            [(1, \<lparr>ds_source = \<lparr>dtype = UInt8, nrows = 2, ncols = 2, elems = [1, 2, 3, 4]\<rparr>,
                  ds_anti_aliasing = True, ds_dtype = UInt8, ds_chunks = (1, 1)\<rparr>)]\<rparr>) =
       Inr \<lparr>multiscale = True, shape = (2, 2), scale_levels = 1\<rparr>
   \<and> image_getitem \<lparr>multiscale = True, shape = (2, 2), scale_levels = 1\<rparr>
        [SliceSel (Some 0) (Some 2) None, SliceSel (Some 0) (Some 2) None] =
       Inr (Read Base [SliceSel (Some 0) (Some 2) None, SliceSel (Some 0) (Some 2) None])
   \<and> spec_select_scale 1 1 0 2 = 1"
  by (simp add: eval_build open_image_def image_getitem_def read_scaled_def select_scale.simps
        spec_select_scale.simps)

text \<open>
  C2, amended. The threshold of the loop is \<open>CHUNK_SIZE // 4 = 256\<close>, whatever
  chunk shape the store was built with. On a handle with \<open>scale_levels \<ge> 0\<close>
  the loop, from level 0 and the largest span \<open>sz\<close>, selects the level \<open>k\<close>
  between 0 and \<open>scale_levels\<close> such that the span halved \<open>j\<close> times exceeds
  256 for every \<open>j < k\<close> and the span halved \<open>k\<close> times does not exceed it
  unless \<open>k = scale_levels\<close>; a span of at most 256 (so also one equal to it)
  stays at level 0. It is the loop of the spec on a store of chunk size 1024.
  An implicit-level request of slices without step, of an image or of a
  volume, reads level \<open>k\<close> with both bounds of every slice divided by
  \<open>2 ^ k\<close>. With \<open>scale_levels = 2\<close>, \<open>(slice(0, 4000), slice(0, 4000))\<close> reads
  \<open>(slice(0, 1000), slice(0, 1000))\<close> of level 2.
\<close>

theorem implicit_range_request:
  fixes h :: "(int \<times> int) handle" and v :: "(int \<times> int \<times> int) handle"
  assumes levels: "0 \<le> levels" and k: "k = select_scale levels 0 sz"
  shows "CHUNK_SIZE div 4 = 256
       \<and> 0 \<le> k \<and> k \<le> levels
       \<and> (\<forall>j < nat k. sz div 2 ^ j > CHUNK_SIZE div 4)
       \<and> (k < levels \<longrightarrow> sz div 2 ^ nat k \<le> CHUNK_SIZE div 4)
       \<and> (sz \<le> CHUNK_SIZE div 4 \<longrightarrow> k = 0)
       \<and> spec_select_scale 1024 levels 0 sz = k
       \<and> (scale_levels h = levels
            \<and> sz = max ((case xb of None \<Rightarrow> fst (shape h) | Some b \<Rightarrow> b)
                          - (case xa of None \<Rightarrow> 0 | Some a \<Rightarrow> a))
                        ((case yb of None \<Rightarrow> snd (shape h) | Some b \<Rightarrow> b)
                          - (case ya of None \<Rightarrow> 0 | Some a \<Rightarrow> a)) \<longrightarrow>
            image_getitem h [SliceSel xa xb None, SliceSel ya yb None] =
              Inr (Read (if k = 0 then Base else Downsampled k)
                     [SliceSel (map_option (\<lambda>v. v div 2 ^ nat k) xa)
                               (map_option (\<lambda>v. v div 2 ^ nat k) xb) None,
                      SliceSel (map_option (\<lambda>v. v div 2 ^ nat k) ya)
                               (map_option (\<lambda>v. v div 2 ^ nat k) yb) None]))
       \<and> (scale_levels v = levels
            \<and> sz = max ((case xb of None \<Rightarrow> fst (shape v) | Some b \<Rightarrow> b)
                          - (case xa of None \<Rightarrow> 0 | Some a \<Rightarrow> a))
                     (max ((case yb of None \<Rightarrow> fst (snd (shape v)) | Some b \<Rightarrow> b)
                            - (case ya of None \<Rightarrow> 0 | Some a \<Rightarrow> a))
                          ((case zb of None \<Rightarrow> snd (snd (shape v)) | Some b \<Rightarrow> b)
                            - (case za of None \<Rightarrow> 0 | Some a \<Rightarrow> a))) \<longrightarrow>
            volume_getitem v [SliceSel xa xb None, SliceSel ya yb None, SliceSel za zb None] =
              Inr (Read (if k = 0 then Base else Downsampled k)
                     [SliceSel (map_option (\<lambda>v. v div 2 ^ nat k) xa)
                               (map_option (\<lambda>v. v div 2 ^ nat k) xb) None,
                      SliceSel (map_option (\<lambda>v. v div 2 ^ nat k) ya)
                               (map_option (\<lambda>v. v div 2 ^ nat k) yb) None,
                      SliceSel (map_option (\<lambda>v. v div 2 ^ nat k) za)
                               (map_option (\<lambda>v. v div 2 ^ nat k) zb) None]))
       \<and> image_getitem \<lparr>multiscale = True, shape = (4096, 4096), scale_levels = 2\<rparr>
           [SliceSel (Some 0) (Some 4000) None, SliceSel (Some 0) (Some 4000) None] =
           Inr (Read (Downsampled 2)
                  [SliceSel (Some 0) (Some 1000) None, SliceSel (Some 0) (Some 1000) None])"
proof -
  have q: "CHUNK_SIZE div 4 = 256" by (simp add: CHUNK_SIZE_def)
  have k0: "0 \<le> k" unfolding k by (rule select_scale_lower)
  have k1: "k \<le> levels" unfolding k using levels by (rule select_scale_upper)
  have above: "\<forall>j < nat k. sz div 2 ^ j > CHUNK_SIZE div 4"
    using select_scale_above [of _ levels 0 sz] by (simp add: k)
  have below: "k < levels \<longrightarrow> sz div 2 ^ nat k \<le> CHUNK_SIZE div 4"
    using select_scale_below [of levels 0 sz] by (simp add: k)
  have stop: "sz \<le> CHUNK_SIZE div 4 \<longrightarrow> k = 0"
    by (simp add: k select_scale_stop)
  have spec: "spec_select_scale 1024 levels 0 sz = k"
    using spec_select_scale_default [of levels 0 sz] by (simp add: k CHUNK_SIZE_def)
  have img: "image_getitem h [SliceSel xa xb None, SliceSel ya yb None] =
              Inr (Read (if k = 0 then Base else Downsampled k)
                     [SliceSel (map_option (\<lambda>v. v div 2 ^ nat k) xa)
                               (map_option (\<lambda>v. v div 2 ^ nat k) xb) None,
                      SliceSel (map_option (\<lambda>v. v div 2 ^ nat k) ya)
                               (map_option (\<lambda>v. v div 2 ^ nat k) yb) None])"
    if "scale_levels h = levels"
      "sz = max ((case xb of None \<Rightarrow> fst (shape h) | Some b \<Rightarrow> b)
                          - (case xa of None \<Rightarrow> 0 | Some a \<Rightarrow> a))
                        ((case yb of None \<Rightarrow> snd (shape h) | Some b \<Rightarrow> b)
                          - (case ya of None \<Rightarrow> 0 | Some a \<Rightarrow> a))"
    using that levels k by (intro implicit_range_request_image) simp_all
  have vol: "volume_getitem v [SliceSel xa xb None, SliceSel ya yb None, SliceSel za zb None] =
              Inr (Read (if k = 0 then Base else Downsampled k)
                     [SliceSel (map_option (\<lambda>v. v div 2 ^ nat k) xa)
                               (map_option (\<lambda>v. v div 2 ^ nat k) xb) None,
                      SliceSel (map_option (\<lambda>v. v div 2 ^ nat k) ya)
                               (map_option (\<lambda>v. v div 2 ^ nat k) yb) None,
                      SliceSel (map_option (\<lambda>v. v div 2 ^ nat k) za)
                               (map_option (\<lambda>v. v div 2 ^ nat k) zb) None])"
    if "scale_levels v = levels"
      "sz = max ((case xb of None \<Rightarrow> fst (shape v) | Some b \<Rightarrow> b)
                          - (case xa of None \<Rightarrow> 0 | Some a \<Rightarrow> a))
                     (max ((case yb of None \<Rightarrow> fst (snd (shape v)) | Some b \<Rightarrow> b)
                            - (case ya of None \<Rightarrow> 0 | Some a \<Rightarrow> a))
                          ((case zb of None \<Rightarrow> snd (snd (shape v)) | Some b \<Rightarrow> b)
                            - (case za of None \<Rightarrow> 0 | Some a \<Rightarrow> a)))"
    using that levels k by (intro implicit_range_request_volume) simp_all
  have scen: "image_getitem \<lparr>multiscale = True, shape = (4096, 4096), scale_levels = 2\<rparr>
           [SliceSel (Some 0) (Some 4000) None, SliceSel (Some 0) (Some 4000) None] =
           Inr (Read (Downsampled 2)
                  [SliceSel (Some 0) (Some 1000) None, SliceSel (Some 0) (Some 1000) None])"
    by (simp add: image_getitem_def read_scaled_def select_scale.simps CHUNK_SIZE_def)
  from q k0 k1 above below stop spec img vol scen show ?thesis by blast
qed

theorem implicit_range_request_witness:
  "select_scale 5 0 512 = 1
   \<and> spec_select_scale 1024 5 0 512 = 1
   \<and> image_getitem \<lparr>multiscale = True, shape = (4096, 4096), scale_levels = 5\<rparr>
     [SliceSel None (Some 512) None, SliceSel (Some 100) (Some 200) None] =
     Inr (Read (Downsampled 1) [SliceSel None (Some 256) None, SliceSel (Some 50) (Some 100) None])
   \<and> volume_getitem \<lparr>multiscale = True, shape = (4096, 4096, 65), scale_levels = 5\<rparr>
     [SliceSel None (Some 512) None, SliceSel (Some 100) (Some 200) None, SliceSel None None None] =
     Inr (Read (Downsampled 1) [SliceSel None (Some 256) None, SliceSel (Some 50) (Some 100) None,
                                SliceSel None None None])
   \<and> select_scale 5 0 256 = 0
   \<and> image_getitem \<lparr>multiscale = True, shape = (4096, 4096), scale_levels = 5\<rparr>
     [SliceSel (Some 0) (Some 256) None, SliceSel (Some 100) (Some 200) None] =
     Inr (Read Base [SliceSel (Some 0) (Some 256) None, SliceSel (Some 100) (Some 200) None])"
proof -
  let ?h = "\<lparr>multiscale = True, shape = (4096::int, 4096::int), scale_levels = 5\<rparr>"
  let ?v = "\<lparr>multiscale = True, shape = (4096::int, 4096::int, 65::int), scale_levels = 5\<rparr>"
  have k1: "select_scale 5 0 512 = 1" by (simp add: select_scale.simps CHUNK_SIZE_def)
  have k0: "select_scale 5 0 256 = 0" by (simp add: select_scale.simps CHUNK_SIZE_def)
  note a = implicit_range_request [where levels = 5 and sz = 512 and k = 1 and h = ?h and v = ?v
      and xa = None and xb = "Some 512" and ya = "Some 100" and yb = "Some 200"
      and za = None and zb = None]
  note b = implicit_range_request [where levels = 5 and sz = 256 and k = 0 and h = ?h
      and xa = "Some 0" and xb = "Some 256" and ya = "Some 100" and yb = "Some 200"]
  from a k1 have a': "spec_select_scale 1024 5 0 512 = 1
    \<and> image_getitem ?h [SliceSel None (Some 512) None, SliceSel (Some 100) (Some 200) None] =
     Inr (Read (Downsampled 1) [SliceSel None (Some 256) None, SliceSel (Some 50) (Some 100) None])
    \<and> volume_getitem ?v
     [SliceSel None (Some 512) None, SliceSel (Some 100) (Some 200) None, SliceSel None None None] =
     Inr (Read (Downsampled 1) [SliceSel None (Some 256) None, SliceSel (Some 50) (Some 100) None,
                                SliceSel None None None])"
    by simp
  from b k0 have b': "image_getitem ?h
     [SliceSel (Some 0) (Some 256) None, SliceSel (Some 100) (Some 200) None] =
     Inr (Read Base [SliceSel (Some 0) (Some 256) None, SliceSel (Some 100) (Some 200) None])"
    by simp
  from a' b' k1 k0 show ?thesis by simp
qed

section \<open>The formula of the scale levels\<close>

lemma last_same_shape:
  "list_all (\<lambda>q. nrows q = nrows p \<and> ncols q = ncols p) ps \<Longrightarrow> ps \<noteq> [] \<Longrightarrow>
     nrows (last ps) = nrows p \<and> ncols (last ps) = ncols p"
  by (induction ps) auto

lemma build_from_tiffdir_multiscale:
  assumes "build_from_tiffdir ex files cs True xl yl zl zs = Inr g" and "base g = Some b"
  shows "\<exists>levels. attr_scale_levels g = Some levels
           \<and> compute_scale_levels (int (fst (vol_shape b)), int (fst (snd (vol_shape b))))
                (fst (vol_chunks b), fst (snd (vol_chunks b))) = Inr levels"
  using assms
  by (auto simp add: build_from_tiffdir_def Let_def last_same_shape
           split: if_splits sum.splits option.splits list.splits)

lemma load_planes_first:
  assumes "load_planes files xs ys zrange = Inr (q # qs)"
  shows "\<exists>z zr p. zrange = z # zr \<and> map_of files z = Some p \<and> q = crop p xs ys"
  using assms by (cases zrange) (auto split: option.splits sum.splits)

lemma build_from_tiffdir_base:
  assumes "build_from_tiffdir ex files cs multi xl yl zl zs = Inr g" and "base g = Some b"
  shows "\<exists>z zr p. zrange_of files zl zs = Inr (z # zr) \<and> map_of files z = Some p
           \<and> vol_dtype b = dtype p"
proof -
  from assms obtain zrange q qs where
    z: "zrange_of files zl zs = Inr zrange"
    and l: "load_planes files (lims_slice xl) (lims_slice yl) zrange = Inr (q # qs)"
    and d: "vol_dtype b = dtype q"
    by (auto simp add: build_from_tiffdir_def Let_def
           split: if_splits sum.splits option.splits list.splits)
  from load_planes_first [OF l] obtain z' zr p where
    "zrange = z' # zr" "map_of files z' = Some p" "q = crop p (lims_slice xl) (lims_slice yl)"
    by blast
  with z d show ?thesis by simp
qed

text \<open>
  C3. A multiscale build that finishes, of an image or of a volume, persists
  as \<open>scale_levels\<close> the value of the formula
  \<open>min(10, ceil(log2(max_d(shape[d] / chunk_size[d]))))\<close> over the two
  resampled axes (the first two) of the shape and the chunk shape of the
  level-0 array it wrote, when these are positive; so does the computation
  both builds share, on every positive shape and chunk shape. Shape
  (4096, 4096) with chunk size 1024 gives 2.
\<close>

theorem scale_levels_formula:
  "(build_from_image ex img_data cs True xl yl = Inr g \<and> base g = Some b
      \<and> 0 < nrows (img b) \<and> 0 < ncols (img b)
      \<and> 0 < fst (img_chunks b) \<and> 0 < snd (img_chunks b) \<longrightarrow>
      attr_scale_levels g =
        Some (spec_scale_levels (int (nrows (img b)), int (ncols (img b))) (img_chunks b)))
   \<and> (build_from_tiffdir ex files csv True xl yl zl zs = Inr gv \<and> base gv = Some bv
      \<and> 0 < fst (vol_shape bv) \<and> 0 < fst (snd (vol_shape bv))
      \<and> 0 < fst (vol_chunks bv) \<and> 0 < fst (snd (vol_chunks bv)) \<longrightarrow>
      attr_scale_levels gv =
        Some (spec_scale_levels (int (fst (vol_shape bv)), int (fst (snd (vol_shape bv))))
                (fst (vol_chunks bv), fst (snd (vol_chunks bv)))))
   \<and> (0 < s0 \<and> 0 < s1 \<and> 0 < c0 \<and> 0 < c1 \<longrightarrow>
        compute_scale_levels (s0, s1) (c0, c1) = Inr (spec_scale_levels (s0, s1) (c0, c1)))
   \<and> compute_scale_levels (4096, 4096) (1024, 1024) = Inr 2"
proof -
  have 1: "attr_scale_levels g =
        Some (spec_scale_levels (int (nrows (img b)), int (ncols (img b))) (img_chunks b))"
    if build: "build_from_image ex img_data cs True xl yl = Inr g" and b: "base g = Some b"
      and pos: "0 < nrows (img b)" "0 < ncols (img b)"
             "0 < fst (img_chunks b)" "0 < snd (img_chunks b)"
  proof -
    from build obtain dt levels where
      g: "base g = Some \<lparr>img = crop (astype img_data dt) (lims_slice xl) (lims_slice yl),
                      img_chunks = (case cs of None \<Rightarrow> (CHUNK_SIZE, CHUNK_SIZE) | Some c \<Rightarrow> c)\<rparr>"
      and c: "compute_scale_levels
         (int (nrows (crop (astype img_data dt) (lims_slice xl) (lims_slice yl))),
          int (ncols (crop (astype img_data dt) (lims_slice xl) (lims_slice yl))))
         (case cs of None \<Rightarrow> (CHUNK_SIZE, CHUNK_SIZE) | Some c \<Rightarrow> c) = Inr levels"
      and a: "attr_scale_levels g = Some levels"
      by (rule build_from_image_multiscale)
    from g b have b': "b = \<lparr>img = crop (astype img_data dt) (lims_slice xl) (lims_slice yl),
                      img_chunks = (case cs of None \<Rightarrow> (CHUNK_SIZE, CHUNK_SIZE) | Some c \<Rightarrow> c)\<rparr>"
      by simp
    from c have c': "compute_scale_levels (int (nrows (img b)), int (ncols (img b)))
                       (fst (img_chunks b), snd (img_chunks b)) = Inr levels"
      by (simp add: b')
    have "compute_scale_levels (int (nrows (img b)), int (ncols (img b)))
                       (fst (img_chunks b), snd (img_chunks b)) =
          Inr (spec_scale_levels (int (nrows (img b)), int (ncols (img b)))
                       (fst (img_chunks b), snd (img_chunks b)))"
      using pos by (intro compute_scale_levels_pos) simp_all
    with c' a show ?thesis by simp
  qed
  have 2: "attr_scale_levels gv =
        Some (spec_scale_levels (int (fst (vol_shape bv)), int (fst (snd (vol_shape bv))))
                (fst (vol_chunks bv), fst (snd (vol_chunks bv))))"
    if build: "build_from_tiffdir ex files csv True xl yl zl zs = Inr gv" and b: "base gv = Some bv"
      and pos: "0 < fst (vol_shape bv)" "0 < fst (snd (vol_shape bv))"
             "0 < fst (vol_chunks bv)" "0 < fst (snd (vol_chunks bv))"
  proof -
    from build_from_tiffdir_multiscale [OF build b] obtain levels where
      a: "attr_scale_levels gv = Some levels"
      and c: "compute_scale_levels (int (fst (vol_shape bv)), int (fst (snd (vol_shape bv))))
                (fst (vol_chunks bv), fst (snd (vol_chunks bv))) = Inr levels"
      by blast
    have "compute_scale_levels (int (fst (vol_shape bv)), int (fst (snd (vol_shape bv))))
                (fst (vol_chunks bv), fst (snd (vol_chunks bv))) =
          Inr (spec_scale_levels (int (fst (vol_shape bv)), int (fst (snd (vol_shape bv))))
                (fst (vol_chunks bv), fst (snd (vol_chunks bv))))"
      using pos by (intro compute_scale_levels_pos) simp_all
    with c a show ?thesis by simp
  qed
  have 3: "0 < s0 \<and> 0 < s1 \<and> 0 < c0 \<and> 0 < c1 \<longrightarrow>
            compute_scale_levels (s0, s1) (c0, c1) = Inr (spec_scale_levels (s0, s1) (c0, c1))"
    by (simp add: compute_scale_levels_pos)
  have 4: "compute_scale_levels (4096, 4096) (1024, 1024) = Inr 2"
    by (simp add: compute_scale_levels_int ceil_log2_int_def clog_up.simps)
  from 1 2 3 4 show ?thesis by blast
qed

theorem scale_levels_formula_witness:
  "build_from_image False \<lparr>dtype = UInt8, nrows = 2, ncols = 3, elems = [1, 2, 3, 4, 5, 6]\<rparr>
        (Some (1, 1)) True None None =
     Inr \<lparr>attr_multiscale = Some True, attr_scale_levels = Some 2,
          base = Some \<lparr>img = \<lparr>dtype = UInt8, nrows = 2, ncols = 3, elems = [1, 2, 3, 4, 5, 6]\<rparr>,
                      img_chunks = (1, 1)\<rparr>,
          downsampled =
            [(1, \<lparr>ds_source = \<lparr>dtype = UInt8, nrows = 2, ncols = 3, elems = [1, 2, 3, 4, 5, 6]\<rparr>,
                  ds_anti_aliasing = True, ds_dtype = UInt8, ds_chunks = (1, 1)\<rparr>),
             (2, \<lparr>ds_source = \<lparr>dtype = UInt8, nrows = 2, ncols = 3, elems = [1, 2, 3, 4, 5, 6]\<rparr>,
                  ds_anti_aliasing = True, ds_dtype = UInt8, ds_chunks = (1, 1)\<rparr>)]\<rparr>
   \<and> spec_scale_levels (2, 3) (1, 1) = 2
   \<and> build_from_tiffdir False
        [(0, \<lparr>dtype = UInt16, nrows = 2, ncols = 2, elems = [0, 300, 5, 7]\<rparr>),
         (1, \<lparr>dtype = UInt16, nrows = 2, ncols = 2, elems = [1, 2, 3, 4]\<rparr>),
         (2, \<lparr>dtype = UInt16, nrows = 2, ncols = 2, elems = [9, 9, 9, 9]\<rparr>)]
        (Some (1, 1, 1)) True None None None None =
     Inr \<lparr>attr_multiscale = Some True, attr_scale_levels = Some 1,
          base = Some \<lparr>vol_dtype = UInt16, vol_shape = (2, 2, 3), vol_chunks = (1, 1, 1)\<rparr>,
          downsampled =
            [(1, \<lparr>dsv_dtype = Float64, dsv_plane = (2, 2), dsv_depth = 2,
                  dsv_chunks = (1, 1, 1)\<rparr>)]\<rparr>
   \<and> spec_scale_levels (2, 2) (1, 1) = 1"
proof -
  let ?img = "\<lparr>dtype = UInt8, nrows = 2, ncols = 3, elems = [1, 2, 3, 4, 5, 6]\<rparr>"
  let ?g = "\<lparr>attr_multiscale = Some True, attr_scale_levels = Some 2,
          base = Some \<lparr>img = ?img, img_chunks = (1, 1)\<rparr>,
          downsampled =
            [(1, \<lparr>ds_source = ?img, ds_anti_aliasing = True, ds_dtype = UInt8,
                  ds_chunks = (1, 1)\<rparr>),
             (2, \<lparr>ds_source = ?img, ds_anti_aliasing = True, ds_dtype = UInt8,
                  ds_chunks = (1, 1)\<rparr>)]\<rparr>"
  let ?files = "[(0, \<lparr>dtype = UInt16, nrows = 2, ncols = 2, elems = [0, 300, 5, 7]\<rparr>),
         (1, \<lparr>dtype = UInt16, nrows = 2, ncols = 2, elems = [1, 2, 3, 4]\<rparr>),
         (2, \<lparr>dtype = UInt16, nrows = 2, ncols = 2, elems = [9, 9, 9, 9]\<rparr>)]"
  let ?bv = "\<lparr>vol_dtype = UInt16, vol_shape = (2, 2, 3), vol_chunks = (1, 1, 1)\<rparr>"
  let ?gv = "\<lparr>attr_multiscale = Some True, attr_scale_levels = Some 1,
          base = Some ?bv,
          downsampled =
            [(1, \<lparr>dsv_dtype = Float64, dsv_plane = (2, 2), dsv_depth = 2,
                  dsv_chunks = (1, 1, 1)\<rparr>)]\<rparr>"
  have build: "build_from_image False ?img (Some (1, 1)) True None None = Inr ?g"
    by (simp add: eval_build)
  have buildv: "build_from_tiffdir False ?files (Some (1, 1, 1)) True None None None None = Inr ?gv"
    by (simp add: eval_tiffdir eval_build)
  from scale_levels_formula [where ex = False and img_data = ?img and cs = "Some (1, 1)"
      and xl = None and yl = None and g = ?g and b = "\<lparr>img = ?img, img_chunks = (1, 1)\<rparr>"] build
  have a: "spec_scale_levels (2, 3) (1, 1) = 2" by simp
  from scale_levels_formula [where ex = False and files = ?files and csv = "Some (1, 1, 1)"
      and xl = None and yl = None and zl = None and zs = None and gv = ?gv and bv = ?bv] buildv
  have b: "spec_scale_levels (2, 2) (1, 1) = 1" by simp
  from build buildv a b show ?thesis by simp
qed

section \<open>The narrowing of the source data\<close>

lemma cast_value_holds:
  "holds dt v \<Longrightarrow> dt \<noteq> Float64 \<Longrightarrow> cast_value dt v = v"
  by (cases dt) auto

lemma astype_keeps:
  assumes "\<forall>x \<in> set (elems a). holds dt x" "dt \<noteq> Float64"
  shows "elems (astype a dt) = elems a"
  using assms by (simp add: astype_def cast_value_holds map_idI)

lemma get_min_datatype_uniform:
  assumes ia: "int_array a" and g: "get_min_datatype a = Inr dt"
    and sign: "(\<forall>x \<in> set (elems a). 0 \<le> x) \<or> (\<forall>x \<in> set (elems a). x < 0)"
  shows "dt \<noteq> Float64"
proof -
  from g obtain v vs where el: "elems a = v # vs"
    and dt: "dt = (let t = find_common_type (min_scalar_type (dtype a) (fold min vs v))
                                      (min_scalar_type (dtype a) (fold max vs v))
           in if t = UInt8 \<and> (fold max vs v = 0 \<or> fold max vs v = 1) then Bool8 else t)"
    by (rule get_min_datatype_cases)
  define lo where "lo = fold min vs v"
  define hi where "hi = fold max vs v"
  define t where "t = find_common_type (min_scalar_type (dtype a) lo) (min_scalar_type (dtype a) hi)"
  have dt': "dt = (if t = UInt8 \<and> (hi = 0 \<or> hi = 1) then Bool8 else t)"
    using dt by (simp add: Let_def lo_def hi_def t_def)
  have d: "dtype a \<noteq> Bool8" using ia by (simp add: int_array_def int_dtype_def)
  have lo_in: "lo \<in> set (elems a)" and hi_in: "hi \<in> set (elems a)"
    unfolding lo_def hi_def el by (rule fold_min_props fold_max_props)+
  have lo_hi: "lo \<le> hi"
    using hi_in unfolding lo_def hi_def el by (rule fold_min_props)
  from sign lo_in hi_in consider "0 \<le> lo" | "hi < 0" by auto
  then have "t \<noteq> Float64"
  proof cases
    case 1
    then have "t = min_scalar_type (dtype a) hi"
      unfolding t_def using d lo_hi by (intro find_common_type_unsigned)
    moreover from 1 lo_hi have "0 \<le> hi" by simp
    ultimately show ?thesis using min_scalar_type_unsigned [OF d, of hi] by auto
  next
    case 2
    then have "t = min_scalar_type (dtype a) lo"
      unfolding t_def using d lo_hi by (intro find_common_type_signed)
    moreover from 2 lo_hi have "lo < 0" by simp
    ultimately show ?thesis using min_scalar_type_signed [OF d, of lo] by auto
  qed
  with dt' show ?thesis by (simp split: if_splits)
qed

text \<open>
  C5, as the claim states it, fails three times. The image build chooses the
  dtype from the whole source data, before the axis limits are applied: the
  row \<open>[0, 1000]\<close> cropped to its first column is stored as \<open>uint16\<close>, while
  the cropped data alone narrows to a boolean. The dtype chosen is not always
  the narrowest: data with minimum \<open>- 1\<close> and maximum \<open>100\<close> narrows to
  \<open>int16\<close>, though \<open>int8\<close> holds both. And the volume build does not narrow: a
  \<open>uint16\<close> plane holding 0 and 1 is stored as \<open>uint16\<close>.
\<close>

theorem cast_precedes_crop_counterexample:
  "image_level_dtypes
     (build_from_image False \<lparr>dtype = UInt16, nrows = 1, ncols = 2, elems = [0, 1000]\<rparr>
        None False None (Some (Some 0, Some 1))) = [UInt16]
   \<and> get_min_datatype
       (crop \<lparr>dtype = UInt16, nrows = 1, ncols = 2, elems = [0, 1000]\<rparr>
          (None, None) (Some 0, Some 1)) = Inr Bool8
   \<and> get_min_datatype \<lparr>dtype = Int64, nrows = 1, ncols = 2, elems = [- 1, 100]\<rparr> = Inr Int16
   \<and> holds Int8 (- 1) \<and> holds Int8 100 \<and> bits Int8 < bits Int16
   \<and> volume_level_dtypes
       (build_from_tiffdir False
          [(0, \<lparr>dtype = UInt16, nrows = 1, ncols = 2, elems = [0, 1]\<rparr>)]
          None False None None None None) = [UInt16]
   \<and> get_min_datatype \<lparr>dtype = UInt16, nrows = 1, ncols = 2, elems = [0, 1]\<rparr> = Inr Bool8"
  by (simp add: eval_build eval_tiffdir)

text \<open>
  C5, amended. An image build that finishes has cast the whole source data
  to \<open>get_min_datatype\<close> of the whole data and applied the axis limits
  afterwards: level 0 is the crop of the cast data. For data of an integer
  dtype (elements within 64 bits) that dtype is the boolean type exactly when
  every element is 0 or 1; and when no element is negative, or every element
  is, it holds every element, the cast keeps every element, and no integer
  dtype that holds every element is narrower. A volume build that finishes
  has given level 0 the dtype of the plane of the first required index.
\<close>

theorem cast_precedes_crop:
  "(build_from_image ex img_data cs multi xl yl = Inr g \<longrightarrow>
      (\<exists>dt b. get_min_datatype img_data = Inr dt \<and> base g = Some b
         \<and> img b = crop (astype img_data dt) (lims_slice xl) (lims_slice yl)
         \<and> dtype (img b) = dt
         \<and> (int_array img_data \<longrightarrow>
              (dt = Bool8 \<longleftrightarrow> (\<forall>x \<in> set (elems img_data). x = 0 \<or> x = 1))
              \<and> ((\<forall>x \<in> set (elems img_data). 0 \<le> x) \<or> (\<forall>x \<in> set (elems img_data). x < 0) \<longrightarrow>
                   (\<forall>x \<in> set (elems img_data). holds dt x)
                   \<and> elems (astype img_data dt) = elems img_data
                   \<and> (\<forall>u. int_dtype u \<and> (\<forall>x \<in> set (elems img_data). holds u x) \<longrightarrow>
                          bits dt \<le> bits u)))))
   \<and> (build_from_tiffdir ex files csv multi xl yl zl zs = Inr gv \<and> base gv = Some bv \<longrightarrow>
      (\<exists>z zr p. zrange_of files zl zs = Inr (z # zr) \<and> map_of files z = Some p
         \<and> vol_dtype bv = dtype p))"
proof -
  have 1: "\<exists>dt b. get_min_datatype img_data = Inr dt \<and> base g = Some b
         \<and> img b = crop (astype img_data dt) (lims_slice xl) (lims_slice yl)
         \<and> dtype (img b) = dt
         \<and> (int_array img_data \<longrightarrow>
              (dt = Bool8 \<longleftrightarrow> (\<forall>x \<in> set (elems img_data). x = 0 \<or> x = 1))
              \<and> ((\<forall>x \<in> set (elems img_data). 0 \<le> x) \<or> (\<forall>x \<in> set (elems img_data). x < 0) \<longrightarrow>
                   (\<forall>x \<in> set (elems img_data). holds dt x)
                   \<and> elems (astype img_data dt) = elems img_data
                   \<and> (\<forall>u. int_dtype u \<and> (\<forall>x \<in> set (elems img_data). holds u x) \<longrightarrow>
                          bits dt \<le> bits u)))"
    if build: "build_from_image ex img_data cs multi xl yl = Inr g"
  proof -
    from build obtain dt b where
      a: "get_min_datatype img_data = Inr dt" and b: "base g = Some b"
      and c: "img b = crop (astype img_data dt) (lims_slice xl) (lims_slice yl)"
      using build_from_image_base by blast
    from c have d: "dtype (img b) = dt" by simp
    have e: "(dt = Bool8 \<longleftrightarrow> (\<forall>x \<in> set (elems img_data). x = 0 \<or> x = 1))
              \<and> ((\<forall>x \<in> set (elems img_data). 0 \<le> x) \<or> (\<forall>x \<in> set (elems img_data). x < 0) \<longrightarrow>
                   (\<forall>x \<in> set (elems img_data). holds dt x)
                   \<and> elems (astype img_data dt) = elems img_data
                   \<and> (\<forall>u. int_dtype u \<and> (\<forall>x \<in> set (elems img_data). holds u x) \<longrightarrow>
                          bits dt \<le> bits u))"
      if ia: "int_array img_data"
    proof -
      note p = get_min_datatype_int [OF ia a]
      have "(\<forall>x \<in> set (elems img_data). holds dt x)
                   \<and> elems (astype img_data dt) = elems img_data
                   \<and> (\<forall>u. int_dtype u \<and> (\<forall>x \<in> set (elems img_data). holds u x) \<longrightarrow>
                          bits dt \<le> bits u)"
        if sign: "(\<forall>x \<in> set (elems img_data). 0 \<le> x) \<or> (\<forall>x \<in> set (elems img_data). x < 0)"
      proof -
        have nf: "dt \<noteq> Float64" using ia a sign by (rule get_min_datatype_uniform)
        with p(1) have h: "\<forall>x \<in> set (elems img_data). holds dt x" by simp
        from h nf have "elems (astype img_data dt) = elems img_data" by (rule astype_keeps)
        with h p(3) sign show ?thesis by blast
      qed
      with p(2) show ?thesis by blast
    qed
    from a b c d e show ?thesis by blast
  qed
  have 2: "\<exists>z zr p. zrange_of files zl zs = Inr (z # zr) \<and> map_of files z = Some p
         \<and> vol_dtype bv = dtype p"
    if "build_from_tiffdir ex files csv multi xl yl zl zs = Inr gv" "base gv = Some bv"
    using that by (rule build_from_tiffdir_base)
  from 1 2 show ?thesis by blast
qed

theorem cast_precedes_crop_witness:
  "build_from_image False \<lparr>dtype = UInt16, nrows = 1, ncols = 2, elems = [0, 1000]\<rparr>
        None False None (Some (Some 0, Some 1)) =
     Inr \<lparr>attr_multiscale = Some False, attr_scale_levels = None,
          base = Some \<lparr>img = \<lparr>dtype = UInt16, nrows = 1, ncols = 1, elems = [0]\<rparr>,
                      img_chunks = (1024, 1024)\<rparr>,
          downsampled = []\<rparr>
   \<and> int_array \<lparr>dtype = UInt16, nrows = 1, ncols = 2, elems = [0, 1000]\<rparr>
   \<and> get_min_datatype \<lparr>dtype = UInt16, nrows = 1, ncols = 2, elems = [0, 1000]\<rparr> = Inr UInt16
   \<and> holds UInt16 0 \<and> holds UInt16 1000 \<and> bits UInt16 \<le> bits Int32
   \<and> build_from_tiffdir False
        [(3, \<lparr>dtype = UInt16, nrows = 1, ncols = 2, elems = [0, 1]\<rparr>)]
        None False None None None None =
     Inr \<lparr>attr_multiscale = Some False, attr_scale_levels = None,
          base = Some \<lparr>vol_dtype = UInt16, vol_shape = (1, 2, 1),
                      vol_chunks = (1024, 1024, 1)\<rparr>,
          downsampled = []\<rparr>
   \<and> (\<exists>zr. zrange_of [(3, \<lparr>dtype = UInt16, nrows = 1, ncols = 2, elems = [0, 1]\<rparr>)]
              None None = Inr (3 # zr))"
proof -
  let ?img = "\<lparr>dtype = UInt16, nrows = 1, ncols = 2, elems = [0, 1000]\<rparr>"
  let ?g = "\<lparr>attr_multiscale = Some False, attr_scale_levels = None,
          base = Some \<lparr>img = \<lparr>dtype = UInt16, nrows = 1, ncols = 1, elems = [0]\<rparr>,
                      img_chunks = (1024, 1024)\<rparr>,
          downsampled = []\<rparr>"
  let ?files = "[(3, \<lparr>dtype = UInt16, nrows = 1, ncols = 2, elems = [0, 1]\<rparr>)]"
  let ?bv = "\<lparr>vol_dtype = UInt16, vol_shape = (1, 2, 1), vol_chunks = (1024, 1024, 1)\<rparr>"
  let ?gv = "\<lparr>attr_multiscale = Some False, attr_scale_levels = None,
          base = Some ?bv, downsampled = []\<rparr>"
  have build: "build_from_image False ?img None False None (Some (Some 0, Some 1)) = Inr ?g"
    by (simp add: eval_build)
  have buildv: "build_from_tiffdir False ?files None False None None None None = Inr ?gv"
    by (simp add: eval_tiffdir eval_build)
  have ia: "int_array ?img" by (simp add: int_array_def int_dtype_def)
  note t = cast_precedes_crop [where ex = False and img_data = ?img and cs = None
      and multi = False and xl = None and yl = "Some (Some 0, Some 1)" and g = ?g]
  note tv = cast_precedes_crop [where ex = False and multi = False and xl = None and yl = None
      and files = ?files and csv = None and zl = None and zs = None and gv = ?gv and bv = ?bv]
  from t build ia
  have a: "get_min_datatype ?img = Inr UInt16 \<and> holds UInt16 0 \<and> holds UInt16 1000
          \<and> bits UInt16 \<le> bits Int32"
    by (auto simp add: int_dtype_def)
  from tv [THEN conjunct2] buildv obtain z zr p where
    zr: "zrange_of ?files None None = Inr (z # zr)" and m: "map_of ?files z = Some p"
    by auto
  from m have "z = 3" by (simp split: if_splits)
  with zr have b: "\<exists>zr. zrange_of ?files None None = Inr (3 # zr)" by blast
  from build buildv ia a b show ?thesis by simp
qed

section \<open>Steps\<close>

lemma get_min_datatype_error: "get_min_datatype a = Inl e \<Longrightarrow> e = ValueError"
  by (auto simp add: get_min_datatype_def Let_def split: list.splits if_splits)

lemma compute_scale_levels_error:
  "compute_scale_levels shp chunk = Inl e \<Longrightarrow> e \<in> {ZeroDivisionError, OverflowError, ValueError}"
proof -
  have r: "ceil_log2_ratio s c = Inl e' \<Longrightarrow> e' = ZeroDivisionError" for s c e'
    by (auto simp add: ceil_log2_ratio_def split: if_splits)
  have i: "py_int f = Inl e' \<Longrightarrow> e' \<in> {OverflowError, ValueError}" for f e'
    by (cases f) auto
  assume "compute_scale_levels shp chunk = Inl e"
  then show ?thesis
    by (auto simp add: compute_scale_levels_def split: sum.splits dest: r i)
qed

lemma zrange_of_error:
  "zrange_of files zl zs = Inl e \<Longrightarrow> e \<in> {ValueError, TypeError, ZeroDivisionError}"
  by (auto simp add: zrange_of_def np_arange_def split: option.splits list.splits if_splits prod.splits)

lemma load_planes_error: "load_planes files xs ys zrange = Inl e \<Longrightarrow> e = KeyError"
  by (induction zrange) (auto split: option.splits sum.splits)

lemma build_from_image_no_step_error:
  "build_from_image ex img_data cs multi xl yl \<noteq> Inl (StepSlices, st)"
  by (auto simp add: build_from_image_def Let_def
           split: if_splits sum.splits
           dest: get_min_datatype_error compute_scale_levels_error)

lemma build_from_tiffdir_no_step_error:
  "build_from_tiffdir ex files cs multi xl yl zl zs \<noteq> Inl (StepSlices, st)"
  by (auto simp add: build_from_tiffdir_def Let_def
           split: if_splits sum.splits option.splits list.splits
           dest: zrange_of_error load_planes_error compute_scale_levels_error)

text \<open>
  C4, as the claim states it, fails: an explicit-level request at level 0 and
  an implicit-level request with an integer selector hand a slice with a step
  to level 0 unchanged; and a volume build given a z-stride of 2 takes every
  second depth index and finishes.
\<close>

theorem stepped_selector_counterexample:
  "image_getitem \<lparr>multiscale = True, shape = (4096, 4096), scale_levels = 2\<rparr>
     [SliceSel (Some 0) (Some 100) (Some 2), SliceSel None None None, IntSel 0] =
     Inr (Read Base [SliceSel (Some 0) (Some 100) (Some 2), SliceSel None None None])
   \<and> image_getitem \<lparr>multiscale = True, shape = (4096, 4096), scale_levels = 2\<rparr>
     [IntSel 7, SliceSel (Some 0) (Some 100) (Some 2)] =
     Inr (Read Base [IntSel 7, SliceSel (Some 0) (Some 100) (Some 2)])
   \<and> zrange_of
        [(0, \<lparr>dtype = UInt16, nrows = 1, ncols = 2, elems = [0, 1]\<rparr>),
         (1, \<lparr>dtype = UInt16, nrows = 1, ncols = 2, elems = [2, 3]\<rparr>),
         (2, \<lparr>dtype = UInt16, nrows = 1, ncols = 2, elems = [4, 5]\<rparr>)] None (Some 2) =
       Inr [0, 2]
   \<and> build_from_tiffdir False
        [(0, \<lparr>dtype = UInt16, nrows = 1, ncols = 2, elems = [0, 1]\<rparr>),
         (1, \<lparr>dtype = UInt16, nrows = 1, ncols = 2, elems = [2, 3]\<rparr>),
         (2, \<lparr>dtype = UInt16, nrows = 1, ncols = 2, elems = [4, 5]\<rparr>)]
        None False None None None (Some 2) =
       Inr \<lparr>attr_multiscale = Some False, attr_scale_levels = None,
            base = Some \<lparr>vol_dtype = UInt16, vol_shape = (1, 2, 2),
                        vol_chunks = (1024, 1024, 1)\<rparr>,
            downsampled = []\<rparr>"
  by (simp add: image_getitem_def read_scaled_def eval_tiffdir eval_build)

text \<open>
  C4, amended. A slice with a step fails with the step error in an
  implicit-level request whose selectors are all slices, and in an
  explicit-level request at a level from 1 to \<open>scale_levels\<close> whose selectors
  are integers or slices. An explicit-level request at level 0 reads level 0
  with the key unchanged when \<open>scale_levels \<ge> 0\<close> and fails the check of the
  level otherwise, and an implicit-level request with an integer selector
  reads level 0 with the key unchanged, whether or not a slice has a step.
  No build fails with the step error.
\<close>

theorem stepped_selector_rejected:
  "(is_slice x \<and> is_slice y \<and> (has_step x \<or> has_step y) \<longrightarrow>
        image_getitem h [x, y] = Inl StepSlices)
   \<and> (is_slice x \<and> is_slice y \<and> is_slice z \<and> (has_step x \<or> has_step y \<or> has_step z) \<longrightarrow>
        volume_getitem v [x, y, z] = Inl StepSlices)
   \<and> (1 \<le> l \<and> l \<le> scale_levels h \<and> x \<noteq> OtherSel \<and> y \<noteq> OtherSel
        \<and> (has_step x \<or> has_step y) \<longrightarrow>
        image_getitem h [x, y, IntSel l] = Inl StepSlices)
   \<and> (1 \<le> l \<and> l \<le> scale_levels v \<and> x \<noteq> OtherSel \<and> y \<noteq> OtherSel \<and> z \<noteq> OtherSel
        \<and> (has_step x \<or> has_step y \<or> has_step z) \<longrightarrow>
        volume_getitem v [x, y, z, IntSel l] = Inl StepSlices)
   \<and> image_getitem h [x, y, IntSel 0] =
        (if 0 \<le> scale_levels h then Inr (Read Base [x, y])
         else Inl (OnlyLevels (scale_levels h)))
   \<and> volume_getitem v [x, y, z, IntSel 0] =
        (if 0 \<le> scale_levels v then Inr (Read Base [x, y, z])
         else Inl (OnlyLevels (scale_levels v)))
   \<and> (is_int x \<or> is_int y \<longrightarrow> image_getitem h [x, y] = Inr (Read Base [x, y]))
   \<and> (is_int x \<or> is_int y \<or> is_int z \<longrightarrow>
        volume_getitem v [x, y, z] = Inr (Read Base [x, y, z]))
   \<and> (\<forall>st. build_from_image ex img_data cs multi xl yl \<noteq> Inl (StepSlices, st))
   \<and> (\<forall>st. build_from_tiffdir ex files csv multi xl yl zl zs \<noteq> Inl (StepSlices, st))"
proof -
  have img: "image_getitem h [x, y] = Inl StepSlices"
    if "is_slice x" "is_slice y" "has_step x \<or> has_step y"
    using that get_slice_size_slice [of x "fst (shape h)"] get_slice_size_slice [of y "snd (shape h)"]
    by (auto simp add: image_getitem_def is_slice_not_int simp del: get_slice_size.simps)
  have vol: "volume_getitem v [x, y, z] = Inl StepSlices"
    if "is_slice x" "is_slice y" "is_slice z" "has_step x \<or> has_step y \<or> has_step z"
    using that get_slice_size_slice [of x "fst (shape v)"]
      get_slice_size_slice [of y "fst (snd (shape v))"]
      get_slice_size_slice [of z "snd (snd (shape v))"]
    by (auto simp add: volume_getitem_def is_slice_not_int simp del: get_slice_size.simps)
  have lvl: "read_scaled n sels (IntSel l) = Inl StepSlices"
    if "1 \<le> l" "l \<le> n" "OtherSel \<notin> set sels" "\<exists>s \<in> set sels. has_step s" for n sels
    using that downsample_all_has_step [of l sels] by (simp add: read_scaled_def)
  have zero: "read_scaled n sels (IntSel 0) =
      (if 0 \<le> n then Inr (Read Base sels) else Inl (OnlyLevels n))" for n sels
    by (simp add: read_scaled_def downsample_all_zero)
  have i3: "image_getitem h [x, y, s] = read_scaled (scale_levels h) [x, y] s" for s
    by (simp add: image_getitem_def)
  have v4: "volume_getitem v [x, y, z, s] = read_scaled (scale_levels v) [x, y, z] s" for s
    by (simp add: volume_getitem_def)
  have p1: "1 \<le> l \<and> l \<le> scale_levels h \<and> x \<noteq> OtherSel \<and> y \<noteq> OtherSel
        \<and> (has_step x \<or> has_step y) \<longrightarrow> image_getitem h [x, y, IntSel l] = Inl StepSlices"
    unfolding i3 using lvl [of "scale_levels h" "[x, y]"] by auto
  have p2: "1 \<le> l \<and> l \<le> scale_levels v \<and> x \<noteq> OtherSel \<and> y \<noteq> OtherSel \<and> z \<noteq> OtherSel
        \<and> (has_step x \<or> has_step y \<or> has_step z) \<longrightarrow>
        volume_getitem v [x, y, z, IntSel l] = Inl StepSlices"
    unfolding v4 using lvl [of "scale_levels v" "[x, y, z]"] by auto
  have p3: "image_getitem h [x, y, IntSel 0] =
        (if 0 \<le> scale_levels h then Inr (Read Base [x, y])
         else Inl (OnlyLevels (scale_levels h)))"
    unfolding i3 by (rule zero)
  have p4: "volume_getitem v [x, y, z, IntSel 0] =
        (if 0 \<le> scale_levels v then Inr (Read Base [x, y, z])
         else Inl (OnlyLevels (scale_levels v)))"
    unfolding v4 by (rule zero)
  have p5: "is_int x \<or> is_int y \<longrightarrow> image_getitem h [x, y] = Inr (Read Base [x, y])"
    by (simp add: image_getitem_def)
  have p6: "is_int x \<or> is_int y \<or> is_int z \<longrightarrow>
        volume_getitem v [x, y, z] = Inr (Read Base [x, y, z])"
    by (simp add: volume_getitem_def)
  have p7: "\<forall>st. build_from_image ex img_data cs multi xl yl \<noteq> Inl (StepSlices, st)"
    by (simp add: build_from_image_no_step_error)
  have p8: "\<forall>st. build_from_tiffdir ex files csv multi xl yl zl zs \<noteq> Inl (StepSlices, st)"
    by (simp add: build_from_tiffdir_no_step_error)
  from img vol p1 p2 p3 p4 p5 p6 p7 p8 show ?thesis by blast
qed

theorem stepped_selector_rejected_witness:
  "image_getitem \<lparr>multiscale = True, shape = (4096, 4096), scale_levels = 2\<rparr>
     [SliceSel None None None, SliceSel (Some 0) (Some 100) (Some 2)] = Inl StepSlices
   \<and> image_getitem \<lparr>multiscale = True, shape = (4096, 4096), scale_levels = 2\<rparr>
     [IntSel 4, SliceSel (Some 0) (Some 100) (Some 2), IntSel 1] = Inl StepSlices
   \<and> volume_getitem \<lparr>multiscale = True, shape = (4096, 4096, 65), scale_levels = 2\<rparr>
     [SliceSel None None None, SliceSel None None None, SliceSel (Some 0) (Some 100) (Some 2)] =
     Inl StepSlices
   \<and> volume_getitem \<lparr>multiscale = True, shape = (4096, 4096, 65), scale_levels = 2\<rparr>
     [SliceSel None None None, SliceSel None None None, SliceSel (Some 0) (Some 100) (Some 2),
      IntSel 2] = Inl StepSlices
   \<and> image_getitem \<lparr>multiscale = True, shape = (4096, 4096), scale_levels = 2\<rparr>
     [IntSel 4, SliceSel (Some 0) (Some 100) (Some 2), IntSel 0] =
     Inr (Read Base [IntSel 4, SliceSel (Some 0) (Some 100) (Some 2)])"
  using stepped_selector_rejected
    [where x = "SliceSel None None None" and y = "SliceSel (Some 0) (Some 100) (Some 2)"
       and h = "\<lparr>multiscale = True, shape = (4096, 4096), scale_levels = 2\<rparr>"]
    stepped_selector_rejected
    [where x = "IntSel 4" and y = "SliceSel (Some 0) (Some 100) (Some 2)" and l = 1
       and h = "\<lparr>multiscale = True, shape = (4096, 4096), scale_levels = 2\<rparr>"]
    stepped_selector_rejected
    [where x = "SliceSel None None None" and y = "SliceSel None None None"
       and z = "SliceSel (Some 0) (Some 100) (Some 2)" and l = 2
       and v = "\<lparr>multiscale = True, shape = (4096, 4096, 65), scale_levels = 2\<rparr>"]
  by simp

end
